theory Spec2Isabelle
  imports Complex_Main "HOL-Library.Char_ord" "HOL-Library.List_Lexorder" "HOL-Library.Log_Nat"
begin

section \<open>Exceptions\<close>

text \<open>
  The exceptions that the modelled code can meet. A function that may raise returns
  \<open>exn + 'a\<close>, with \<open>Inl\<close> for the exception.
\<close>

datatype exn = SyntaxError | ValueError | TypeError | XMLSyntaxError | OtherException

definition bnd :: "exn + 'a \<Rightarrow> ('a \<Rightarrow> exn + 'b) \<Rightarrow> exn + 'b" where
  "bnd m f = (case m of Inl e \<Rightarrow> Inl e | Inr x \<Rightarrow> f x)"

section \<open>XML trees and ElementPath lookups\<close>

text \<open>
  An element of a parsed tree: its namespace URI (\<open>None\<close> for an element in no
  namespace), its local name, its \<open>.text\<close> (\<open>None\<close> when the element has no text
  node) and its child elements in document order. lxml writes the tag of an element
  in a namespace as \<open>{uri}name\<close>.
\<close>

datatype element =
  Element (ens: "string option") (local_name: string) (etext: "string option")
    (children: "element list")

text \<open>
  The paths of \<open>Dashboard.py\<close> all have one step: \<open>./tag\<close> (a child) or
  \<open>.//tag\<close> (a descendant), where the tag is a name with an optional prefix:
  \<open>.//ns:ide\<close> is \<open>Path Descendant (Some ''ns'') ''ide''\<close> and \<open>./dhEmi\<close> is
  \<open>Path Child None ''dhEmi''\<close>.
\<close>

datatype axis = Child | Descendant

datatype path = Path axis "string option" string

text \<open>
  The \<open>namespaces\<close> argument: \<open>None\<close>, or a dict from prefixes to URIs.
\<close>

type_synonym nsmap = "(string \<times> string) list"

text \<open>
  ElementPath replaces a prefixed name by the qualified tag. A prefix that the map
  does not bind (also when the map is \<open>None\<close> or empty) raises
  \<open>SyntaxError("prefix ... not found in prefix map")\<close>. A name without a prefix
  selects elements in no namespace.
\<close>

definition resolve_tag :: "nsmap option \<Rightarrow> string option \<Rightarrow> string \<Rightarrow> exn + (string option \<times> string)" where
  "resolve_tag namespaces prefix name =
     (case prefix of
        None \<Rightarrow> Inr (None, name)
      | Some p \<Rightarrow>
          (case namespaces of
             None \<Rightarrow> Inl SyntaxError
           | Some m \<Rightarrow>
               (case map_of m p of
                  None \<Rightarrow> Inl SyntaxError
                | Some uri \<Rightarrow> Inr (Some uri, name))))"

definition tag_matches :: "string option \<times> string \<Rightarrow> element \<Rightarrow> bool" where
  "tag_matches tg e = (ens e = fst tg \<and> local_name e = snd tg)"

text \<open>The descendants of an element in document order, the element itself left out.\<close>

fun descendants :: "element \<Rightarrow> element list" where
  "descendants (Element u n t cs) = concat (map (\<lambda>c. c # descendants c) cs)"

definition candidates :: "axis \<Rightarrow> element \<Rightarrow> element list" where
  "candidates a e = (case a of Child \<Rightarrow> children e | Descendant \<Rightarrow> descendants e)"

text \<open>\<open>element.findall(path, namespaces)\<close> and \<open>element.find(path, namespaces)\<close>.\<close>

definition findall_xml :: "element \<Rightarrow> path \<Rightarrow> nsmap option \<Rightarrow> exn + element list" where
  "findall_xml e p namespaces =
     (case p of Path a prefix name \<Rightarrow>
        bnd (resolve_tag namespaces prefix name)
          (\<lambda>tg. Inr (filter (tag_matches tg) (candidates a e))))"

definition find_xml :: "element \<Rightarrow> path \<Rightarrow> nsmap option \<Rightarrow> exn + element option" where
  "find_xml e p namespaces =
     bnd (findall_xml e p namespaces)
       (\<lambda>found. Inr (case found of [] \<Rightarrow> None | x # _ \<Rightarrow> Some x))"

text \<open>
  \<open>get_xml_text(element, xpath, namespaces)\<close>, lines 22 to 27: \<open>None\<close> for the
  element \<open>None\<close>, otherwise the text of the first match, or \<open>None\<close> without a match.
  An exception of \<open>find\<close> is not caught here.
\<close>

definition get_xml_text :: "element option \<Rightarrow> path \<Rightarrow> nsmap option \<Rightarrow> exn + string option" where
  "get_xml_text element xpath namespaces =
     (case element of
        None \<Rightarrow> Inr None
      | Some e \<Rightarrow>
          bnd (find_xml e xpath namespaces)
            (\<lambda>found. Inr (case found of None \<Rightarrow> None | Some f \<Rightarrow> etext f)))"

section \<open>Python floats\<close>

text \<open>
  A Python \<open>float\<close> is an IEEE 754 double: a finite value, an infinity or a NaN. A
  finite double is represented by the rational number it denotes; the sign of zero
  is not represented (\<open>-0.0 == 0.0\<close> in Python).
\<close>

datatype pyfloat = Finite rat | PosInf | NegInf | NaN

definition pow2 :: "int \<Rightarrow> rat" where
  "pow2 k = (if 0 \<le> k then 2 ^ nat k else 1 / 2 ^ nat (- k))"

definition pow10 :: "int \<Rightarrow> rat" where
  "pow10 k = (if 0 \<le> k then 10 ^ nat k else 1 / 10 ^ nat (- k))"

text \<open>The integer part of the binary logarithm of a positive rational.\<close>

definition floor_log2 :: "rat \<Rightarrow> int" where
  "floor_log2 r =
     (let k = bitlen (fst (quotient_of r)) - bitlen (snd (quotient_of r))
      in if pow2 k \<le> r then k else k - 1)"

definition round_half_even :: "rat \<Rightarrow> int" where
  "round_half_even x =
     (let f = \<lfloor>x\<rfloor>; d = x - of_int f
      in if d < 1 / 2 then f else if 1 / 2 < d then f + 1 else if even f then f else f + 1)"

text \<open>
  Rounding a positive rational to the nearest double, ties to even: 53 bits of
  mantissa, the exponent of the last mantissa bit not below \<open>-1074\<close> (subnormal
  numbers), and infinity from \<open>2 ^ 1024\<close> on.
\<close>

definition round_double_pos :: "rat \<Rightarrow> pyfloat" where
  "round_double_pos r =
     (let e = max (floor_log2 r - 52) (- 1074);
          v = of_int (round_half_even (r / pow2 e)) * pow2 e
      in if pow2 1024 \<le> v then PosInf else Finite v)"

definition fneg :: "pyfloat \<Rightarrow> pyfloat" where
  "fneg x = (case x of Finite r \<Rightarrow> Finite (- r) | PosInf \<Rightarrow> NegInf | NegInf \<Rightarrow> PosInf | NaN \<Rightarrow> NaN)"

definition round_double :: "rat \<Rightarrow> pyfloat" where
  "round_double r =
     (if r = 0 then Finite 0
      else if 0 < r then round_double_pos r
      else fneg (round_double_pos (- r)))"

text \<open>The float operations \<open>*\<close> and \<open>+\<close>.\<close>

definition fmul :: "pyfloat \<Rightarrow> pyfloat \<Rightarrow> pyfloat" where
  "fmul x y =
     (case (x, y) of
        (NaN, _) \<Rightarrow> NaN
      | (_, NaN) \<Rightarrow> NaN
      | (Finite a, Finite b) \<Rightarrow> round_double (a * b)
      | (Finite a, PosInf) \<Rightarrow> (if a = 0 then NaN else if 0 < a then PosInf else NegInf)
      | (Finite a, NegInf) \<Rightarrow> (if a = 0 then NaN else if 0 < a then NegInf else PosInf)
      | (PosInf, Finite b) \<Rightarrow> (if b = 0 then NaN else if 0 < b then PosInf else NegInf)
      | (NegInf, Finite b) \<Rightarrow> (if b = 0 then NaN else if 0 < b then NegInf else PosInf)
      | (PosInf, PosInf) \<Rightarrow> PosInf
      | (PosInf, NegInf) \<Rightarrow> NegInf
      | (NegInf, PosInf) \<Rightarrow> NegInf
      | (NegInf, NegInf) \<Rightarrow> PosInf)"

definition fadd :: "pyfloat \<Rightarrow> pyfloat \<Rightarrow> pyfloat" where
  "fadd x y =
     (case (x, y) of
        (NaN, _) \<Rightarrow> NaN
      | (_, NaN) \<Rightarrow> NaN
      | (Finite a, Finite b) \<Rightarrow> round_double (a + b)
      | (Finite a, PosInf) \<Rightarrow> PosInf
      | (Finite a, NegInf) \<Rightarrow> NegInf
      | (PosInf, Finite b) \<Rightarrow> PosInf
      | (NegInf, Finite b) \<Rightarrow> NegInf
      | (PosInf, PosInf) \<Rightarrow> PosInf
      | (PosInf, NegInf) \<Rightarrow> NaN
      | (NegInf, PosInf) \<Rightarrow> NaN
      | (NegInf, NegInf) \<Rightarrow> NegInf)"

text \<open>
  The comparisons \<open>==\<close>, \<open><\<close> and \<open>>=\<close> on floats: every comparison with a NaN is
  false.
\<close>

definition feq :: "pyfloat \<Rightarrow> pyfloat \<Rightarrow> bool" where
  "feq x y = (x \<noteq> NaN \<and> x = y)"

definition flt :: "pyfloat \<Rightarrow> pyfloat \<Rightarrow> bool" where
  "flt x y =
     (case (x, y) of
        (NaN, _) \<Rightarrow> False
      | (_, NaN) \<Rightarrow> False
      | (Finite a, Finite b) \<Rightarrow> a < b
      | (Finite a, PosInf) \<Rightarrow> True
      | (Finite a, NegInf) \<Rightarrow> False
      | (PosInf, _) \<Rightarrow> False
      | (NegInf, NegInf) \<Rightarrow> False
      | (NegInf, _) \<Rightarrow> True)"

definition fge :: "pyfloat \<Rightarrow> pyfloat \<Rightarrow> bool" where
  "fge x y = (x \<noteq> NaN \<and> y \<noteq> NaN \<and> \<not> flt x y)"

definition isnan :: "pyfloat \<Rightarrow> bool" where
  "isnan x = (x = NaN)"

subsection \<open>\<open>float(s)\<close> on a string\<close>

text \<open>
  \<open>float(s)\<close> for a \<open>str\<close>, after CPython's \<open>PyFloat_FromString\<close>: white space is
  stripped at both ends, underscores are accepted between digits only, and the rest
  is an optional sign followed by \<open>inf\<close>, \<open>infinity\<close> or \<open>nan\<close> in any case, or by a
  decimal literal (digits with an optional point, at least one digit, and an optional
  exponent). The value is rounded to the nearest double; a literal too large gives an
  infinity. Anything else raises \<open>ValueError\<close>. Strings are read as ASCII: Python first
  maps the other Unicode decimal digits and white space to ASCII, which is left out
  here.
\<close>

definition is_space :: "char \<Rightarrow> bool" where
  "is_space c = (c \<in> set [CHR '' '', CHR 0x09, CHR 0x0A, CHR 0x0B, CHR 0x0C, CHR 0x0D])"

definition is_digit :: "char \<Rightarrow> bool" where
  "is_digit c = (c \<in> set ''0123456789'')"

definition strip_space :: "string \<Rightarrow> string" where
  "strip_space s = rev (dropWhile is_space (rev (dropWhile is_space s)))"

text \<open>
  \<open>_Py_string_to_number_with_underscores\<close>: an underscore is allowed only after a
  digit and before a digit. The first argument is the previous character.
\<close>

fun drop_underscores :: "char \<Rightarrow> string \<Rightarrow> string option" where
  "drop_underscores prev [] = (if prev = CHR ''_'' then None else Some [])"
| "drop_underscores prev (c # cs) =
     (if c = CHR ''_'' then (if is_digit prev then drop_underscores c cs else None)
      else if prev = CHR ''_'' \<and> \<not> is_digit c then None
      else map_option ((#) c) (drop_underscores c cs))"

definition digit_val :: "char \<Rightarrow> nat" where
  "digit_val c = of_char c - 48"

definition digits_val :: "string \<Rightarrow> nat" where
  "digits_val ds = foldl (\<lambda>n c. 10 * n + digit_val c) 0 ds"

text \<open>ASCII lower case, as \<open>Py_TOLOWER\<close> and \<open>str.lower\<close> give it on ASCII text.\<close>

definition lower_char :: "char \<Rightarrow> char" where
  "lower_char c =
     (case map_of (zip ''ABCDEFGHIJKLMNOPQRSTUVWXYZ'' ''abcdefghijklmnopqrstuvwxyz'') c of
        None \<Rightarrow> c
      | Some d \<Rightarrow> d)"

definition split_sign :: "string \<Rightarrow> bool \<times> string" where
  "split_sign s =
     (case s of
        [] \<Rightarrow> (False, [])
      | c # t \<Rightarrow> if c = CHR ''-'' then (True, t) else if c = CHR ''+'' then (False, t) else (False, s))"

text \<open>The unsigned decimal literal: its exact value, or \<open>None\<close> when it is not one.\<close>

definition parse_decimal :: "string \<Rightarrow> rat option" where
  "parse_decimal s =
     (let ip = takeWhile is_digit s;
          r1 = dropWhile is_digit s;
          has_point = (r1 \<noteq> [] \<and> hd r1 = CHR ''.'');
          fp = (if has_point then takeWhile is_digit (tl r1) else []);
          r2 = (if has_point then dropWhile is_digit (tl r1) else r1);
          mant = of_nat (digits_val (ip @ fp)) / 10 ^ length fp
      in if ip = [] \<and> fp = [] then None
         else if r2 = [] then Some mant
         else if hd r2 = CHR ''e'' \<or> hd r2 = CHR ''E'' then
           (case split_sign (tl r2) of
              (neg, ds) \<Rightarrow>
                if ds \<noteq> [] \<and> list_all is_digit ds
                then Some (mant * pow10 (if neg then - int (digits_val ds) else int (digits_val ds)))
                else None)
         else None)"

definition py_float :: "string \<Rightarrow> exn + pyfloat" where
  "py_float s =
     (let t = strip_space s in
      if t = [] then Inl ValueError
      else
        (case drop_underscores (CHR 0x00) t of
           None \<Rightarrow> Inl ValueError
         | Some u \<Rightarrow>
             (case split_sign u of
                (neg, body) \<Rightarrow>
                  if map lower_char body = ''inf'' \<or> map lower_char body = ''infinity''
                  then Inr (if neg then NegInf else PosInf)
                  else if map lower_char body = ''nan'' then Inr NaN
                  else
                    (case parse_decimal body of
                       None \<Rightarrow> Inl ValueError
                     | Some r \<Rightarrow> Inr (round_double (if neg then - r else r))))))"

section \<open>The item extractor: \<open>parse_xml_base\<close>\<close>

text \<open>The namespace of NF-e documents, and the namespace map \<open>ns\<close> of line 36.\<close>

definition nfe :: string where
  "nfe = ''http://www.portalfiscal.inf.br/nfe''"

definition ns :: nsmap where
  "ns = [(''ns'', nfe)]"

text \<open>
  One dict of \<open>itens\<close>. The type of \<open>data_hora_emissao\<close> is a parameter: the
  extractor stores the raw text or \<open>None\<close>, the batch step replaces it by what
  \<open>pd.to_datetime\<close> gives.
\<close>

record 'd item =
  arquivo_origem :: string
  data_hora_emissao :: 'd
  tipo_documento :: string
  codigo_produto :: "string option"
  nome_produto :: "string option"
  NCM :: "string option"
  CFOP :: "string option"
  codigo_barras :: "string option"
  quantidade :: pyfloat
  valor_unitario :: pyfloat
  valor_total_item :: pyfloat

text \<open>Python's truth value of a text that may be \<open>None\<close>, and \<open>a or b\<close> on such texts.\<close>

definition truthy :: "string option \<Rightarrow> bool" where
  "truthy t = (case t of None \<Rightarrow> False | Some s \<Rightarrow> s \<noteq> [])"

definition py_or :: "string option \<Rightarrow> string option \<Rightarrow> string option" where
  "py_or a b = (if truthy a then a else b)"

text \<open>
  Lines 39 to 46: the text of \<open>dhEmi\<close>. The unqualified \<open>ide\<close> is looked for only
  when no \<open>ide\<close> of the namespace exists (the \<open>elif\<close>).
\<close>

definition extract_dh_emi :: "element \<Rightarrow> exn + string option" where
  "extract_dh_emi root_el =
     bnd (find_xml root_el (Path Descendant (Some ''ns'') ''ide'') (Some ns))
       (\<lambda>ide_element.
          case ide_element of
            Some ide \<Rightarrow> get_xml_text (Some ide) (Path Child (Some ''ns'') ''dhEmi'') (Some ns)
          | None \<Rightarrow>
              bnd (find_xml root_el (Path Descendant None ''ide'') None)
                (\<lambda>ide2.
                   case ide2 of
                     Some ide \<Rightarrow> get_xml_text (Some ide) (Path Child None ''dhEmi'') None
                   | None \<Rightarrow> Inr None))"

text \<open>Lines 50 to 52: the \<open>det\<close> elements.\<close>

definition find_det_elements :: "element \<Rightarrow> exn + element list" where
  "find_det_elements root_el =
     bnd (findall_xml root_el (Path Descendant (Some ''ns'') ''det'') (Some ns))
       (\<lambda>det_elements.
          if det_elements = [] then findall_xml root_el (Path Descendant None ''det'') None
          else Inr det_elements)"

text \<open>Lines 61 to 63: the \<open>prod\<close> element of a \<open>det\<close>.\<close>

definition find_prod :: "element \<Rightarrow> exn + element option" where
  "find_prod det =
     bnd (find_xml det (Path Child (Some ''ns'') ''prod'') (Some ns))
       (\<lambda>prod_element.
          case prod_element of
            Some p \<Rightarrow> Inr (Some p)
          | None \<Rightarrow> find_xml det (Path Child None ''prod'') None)"

text \<open>
  The expression that lines 68 to 83 repeat for each field \<open>X\<close>:
  \<open>get_xml_text(prod_element, './ns:X', ns) or get_xml_text(prod_element, './X', None)\<close>.
  The second lookup runs only when the first result is \<open>None\<close> or empty.
\<close>

definition prod_field :: "element \<Rightarrow> string \<Rightarrow> exn + string option" where
  "prod_field prod_element name =
     bnd (get_xml_text (Some prod_element) (Path Child (Some ''ns'') name) (Some ns))
       (\<lambda>a. if truthy a then Inr a
            else get_xml_text (Some prod_element) (Path Child None name) None)"

text \<open>
  Lines 85 to 88 (and 89 to 93): \<open>float(text) if text else 0.0\<close> under
  \<open>except (ValueError, TypeError)\<close>.
\<close>

definition float_or_zero :: "string option \<Rightarrow> exn + pyfloat" where
  "float_or_zero text =
     (case text of
        None \<Rightarrow> Inr (Finite 0)
      | Some s \<Rightarrow>
          if s = [] then Inr (Finite 0)
          else
            (case py_float s of
               Inr v \<Rightarrow> Inr v
             | Inl e \<Rightarrow> if e = ValueError \<or> e = TypeError then Inr (Finite 0) else Inl e))"

text \<open>
  The body of the loop over \<open>det_elements\<close>, lines 54 to 101: the item that the
  iteration appends, or \<open>None\<close> when it appends nothing.
\<close>

definition extract_item :: "string \<Rightarrow> string option \<Rightarrow> string \<Rightarrow> element \<Rightarrow> exn + (string option item) option" where
  "extract_item arquivo dh_emi tipo_doc det =
     bnd (find_prod det)
       (\<lambda>prod_element.
          case prod_element of
            None \<Rightarrow> Inr None
          | Some p \<Rightarrow>
              bnd (prod_field p ''cProd'') (\<lambda>codigo.
              bnd (prod_field p ''xProd'') (\<lambda>nome.
              bnd (prod_field p ''NCM'') (\<lambda>ncm.
              bnd (prod_field p ''CFOP'') (\<lambda>cfop.
              bnd (prod_field p ''cEAN'') (\<lambda>cean.
              bnd (prod_field p ''qCom'') (\<lambda>qcom_text.
              bnd (prod_field p ''vUnCom'') (\<lambda>vuncom_text.
              bnd (float_or_zero qcom_text) (\<lambda>q.
              bnd (float_or_zero vuncom_text) (\<lambda>v.
                Inr (if truthy codigo \<or> truthy nome
                     then Some \<lparr>arquivo_origem = arquivo, data_hora_emissao = dh_emi,
                            tipo_documento = tipo_doc, codigo_produto = codigo,
                            nome_produto = nome, NCM = ncm, CFOP = cfop,
                            codigo_barras = cean, quantidade = q, valor_unitario = v,
                            valor_total_item = fmul q v\<rparr>
                     else None)))))))))))"

fun extract_items :: "string \<Rightarrow> string option \<Rightarrow> string \<Rightarrow> element list \<Rightarrow> exn + string option item list" where
  "extract_items arquivo dh_emi tipo_doc [] = Inr []"
| "extract_items arquivo dh_emi tipo_doc (det # dets) =
     bnd (extract_item arquivo dh_emi tipo_doc det)
       (\<lambda>r. bnd (extract_items arquivo dh_emi tipo_doc dets)
          (\<lambda>rs. Inr (case r of None \<Rightarrow> rs | Some i \<Rightarrow> i # rs)))"

text \<open>The body of the \<open>try\<close> once the file is parsed, lines 34 to 103.\<close>

definition parse_tree :: "string \<Rightarrow> element \<Rightarrow> string \<Rightarrow> exn + string option item list" where
  "parse_tree arquivo root_el tipo_doc =
     bnd (extract_dh_emi root_el)
       (\<lambda>dh_emi. bnd (find_det_elements root_el)
          (\<lambda>det_elements. extract_items arquivo dh_emi tipo_doc det_elements))"

text \<open>
  What \<open>ET.parse(xml_file)\<close> does with a file: it raises \<open>XMLSyntaxError\<close> on
  malformed markup, it raises another exception (a file that cannot be read), or it
  gives a tree with this root.
\<close>

datatype xml_source = Malformed | Unreadable | Document element

definition et_parse :: "xml_source \<Rightarrow> exn + element" where
  "et_parse src =
     (case src of
        Malformed \<Rightarrow> Inl XMLSyntaxError
      | Unreadable \<Rightarrow> Inl OtherException
      | Document root_el \<Rightarrow> Inr root_el)"

text \<open>
  \<open>parse_xml_base(xml_file, tipo_doc)\<close>, lines 30 to 112. The first argument is
  \<open>os.path.basename(xml_file)\<close>, the second is what the file holds. Both \<open>except\<close>
  clauses return the empty list.
\<close>

definition parse_xml_base :: "string \<Rightarrow> xml_source \<Rightarrow> string \<Rightarrow> exn + string option item list" where
  "parse_xml_base arquivo src tipo_doc =
     (case bnd (et_parse src) (\<lambda>root_el. parse_tree arquivo root_el tipo_doc) of
        Inr itens \<Rightarrow> Inr itens
      | Inl e \<Rightarrow> if e = XMLSyntaxError then Inr [] else Inr [])"

section \<open>The batch processor: \<open>processar_diretorio_xml\<close>\<close>

text \<open>
  The result: the DataFrame that the function returns (\<open>frame\<close>, the list of
  its rows) and the values of \<open>processed_count\<close>, \<open>total_files\<close> and
  \<open>error_files\<close> that the function reports through \<open>st.warning\<close> and
  \<open>st.success\<close>.
\<close>

record 'd batch =
  frame :: "'d item list"
  processed_count :: nat
  total_files :: nat
  error_files :: "string list"

text \<open>Line 131: \<open>f.lower().endswith(".xml")\<close>.\<close>

definition is_xml_name :: "string \<Rightarrow> bool" where
  "is_xml_name f = (4 \<le> length f \<and> drop (length f - 4) (map lower_char f) = ''.xml'')"

text \<open>
  The loop of lines 150 to 160 over the files, on the state
  \<open>(all_data, processed_count, error_files)\<close>. The \<open>except\<close> of line 157 is the
  branch \<open>Inl\<close>.
\<close>

fun process_files :: "string \<Rightarrow> (string \<times> xml_source) list \<Rightarrow> string option item list \<times> nat \<times> string list \<Rightarrow> string option item list \<times> nat \<times> string list" where
  "process_files tipo_doc [] st = st"
| "process_files tipo_doc ((filename, src) # files) (all_data, processed, errors) =
     process_files tipo_doc files
       (case parse_xml_base filename src tipo_doc of
          Inr data \<Rightarrow>
            if data \<noteq> [] then (all_data @ data, processed + 1, errors)
            else (all_data, processed, errors)
        | Inl e \<Rightarrow> (all_data, processed, errors @ [filename]))"

text \<open>
  Lines 173 to 178: the three columns hold floats already, so \<open>pd.to_numeric\<close>
  leaves them as they are and \<open>fillna(0.0)\<close> replaces each NaN.
\<close>

definition fillna0 :: "pyfloat \<Rightarrow> pyfloat" where
  "fillna0 x = (if isnan x then Finite 0 else x)"

definition coerce_row :: "string option item \<Rightarrow> 'd \<Rightarrow> 'd item" where
  "coerce_row r d =
     \<lparr>arquivo_origem = arquivo_origem r, data_hora_emissao = d,
      tipo_documento = tipo_documento r, codigo_produto = codigo_produto r,
      nome_produto = nome_produto r, NCM = NCM r, CFOP = CFOP r,
      codigo_barras = codigo_barras r, quantidade = fillna0 (quantidade r),
      valor_unitario = fillna0 (valor_unitario r),
      valor_total_item = fillna0 (valor_total_item r)\<rparr>"

text \<open>
  \<open>processar_diretorio_xml(diretorio, tipo_doc)\<close>, lines 120 to 186. The directory
  is \<open>None\<close> when it does not exist or cannot be listed, and otherwise the names
  that \<open>os.listdir\<close> gives, each with the content of the file. The conversion
  \<open>pd.to_datetime(column, errors='coerce')\<close> of the whole column is a parameter; it
  gives a column of the same length.
\<close>

definition processar_diretorio_xml :: "(string option list \<Rightarrow> 'd list) \<Rightarrow> (string \<times> xml_source) list option \<Rightarrow> string \<Rightarrow> 'd batch" where
  "processar_diretorio_xml to_datetime diretorio tipo_doc =
     (case diretorio of
        None \<Rightarrow> \<lparr>frame = [], processed_count = 0, total_files = 0, error_files = []\<rparr>
      | Some listing \<Rightarrow>
          (let files = filter (\<lambda>f. is_xml_name (fst f)) listing in
           if length files = 0
           then \<lparr>frame = [], processed_count = 0, total_files = 0, error_files = []\<rparr>
           else
             (case process_files tipo_doc files ([], 0, []) of
                (all_data, processed, errors) \<Rightarrow>
                  if all_data = []
                  then \<lparr>frame = [], processed_count = processed, total_files = length files,
                        error_files = errors\<rparr>
                  else \<lparr>frame = map2 coerce_row all_data
                               (to_datetime (map data_hora_emissao all_data)),
                        processed_count = processed, total_files = length files,
                        error_files = errors\<rparr>)))"

section \<open>The product summary: \<open>criar_resumo_produto\<close>\<close>

text \<open>One row of \<open>df_resumo\<close>; the suffix of the column names is left out.\<close>

record resumo =
  r_codigo_produto :: string
  r_nome_produto :: "string option"
  qtd_total :: pyfloat
  valor_total :: pyfloat
  CFOP_predominante :: "string option"
  r_NCM :: "string option"
  valor_unitario_medio :: pyfloat

text \<open>The aggregation \<open>'first'\<close>: the first value of the group that is not null.\<close>

definition agg_first :: "string option list \<Rightarrow> string option" where
  "agg_first xs = (case filter (\<lambda>x. x \<noteq> None) xs of [] \<Rightarrow> None | x # _ \<Rightarrow> x)"

text \<open>
  \<open>Series.mode()\<close>: the nulls are dropped, the values of the highest count are
  kept, and the result is sorted.
\<close>

definition series_mode :: "string option list \<Rightarrow> string list" where
  "series_mode x =
     (let vals = map the (filter (\<lambda>v. v \<noteq> None) x);
          top = fold max (map (count_list vals) vals) 0
      in sort (remdups (filter (\<lambda>v. count_list vals v = top) vals)))"

text \<open>Line 258: \<open>lambda x: x.mode()[0] if not x.mode().empty else None\<close>.\<close>

definition agg_cfop :: "string option list \<Rightarrow> string option" where
  "agg_cfop x = (case series_mode x of [] \<Rightarrow> None | m # _ \<Rightarrow> Some m)"

text \<open>
  \<open>sort_values(by=..., ascending=False)\<close> on a float column: the rows whose key is
  not NaN in descending order of the key, then the rows whose key is NaN. pandas
  reverses the rows, sorts them in ascending order and reverses the result. The
  sort is modelled as a stable insertion sort; the default sort of NumPy does not
  promise an order among rows of equal keys.
\<close>

fun insert_asc :: "('a \<Rightarrow> pyfloat) \<Rightarrow> 'a \<Rightarrow> 'a list \<Rightarrow> 'a list" where
  "insert_asc key x [] = [x]"
| "insert_asc key x (y # ys) =
     (if flt (key y) (key x) then y # insert_asc key x ys else x # y # ys)"

definition sort_asc :: "('a \<Rightarrow> pyfloat) \<Rightarrow> 'a list \<Rightarrow> 'a list" where
  "sort_asc key xs = foldr (insert_asc key) xs []"

definition sort_values_desc :: "('a \<Rightarrow> pyfloat) \<Rightarrow> 'a list \<Rightarrow> 'a list" where
  "sort_values_desc key rows =
     rev (sort_asc key (rev (filter (\<lambda>r. \<not> isnan (key r)) rows)))
       @ filter (\<lambda>r. isnan (key r)) rows"

text \<open>The rows of one group, in the order of the frame.\<close>

definition group_rows :: "'d item list \<Rightarrow> string \<Rightarrow> 'd item list" where
  "group_rows df_clean k = filter (\<lambda>r. codigo_produto r = Some k) df_clean"

text \<open>
  \<open>criar_resumo_produto(df, tipo)\<close>, lines 244 to 282. The float aggregations
  \<open>'sum'\<close> and \<open>'mean'\<close> of pandas are parameters. \<open>groupby\<close> gives the groups in
  the sorted order of their keys.
\<close>

definition criar_resumo_produto :: "(pyfloat list \<Rightarrow> pyfloat) \<Rightarrow> (pyfloat list \<Rightarrow> pyfloat) \<Rightarrow> 'd item list \<Rightarrow> resumo list" where
  "criar_resumo_produto agg_sum agg_mean df =
     (let df_clean = filter (\<lambda>r. codigo_produto r \<noteq> None) df in
      if df = [] \<or> df_clean = [] then []
      else
        sort_values_desc qtd_total
          (map (\<lambda>k. let g = group_rows df_clean k in
                  \<lparr>r_codigo_produto = k,
                   r_nome_produto = agg_first (map nome_produto g),
                   qtd_total = agg_sum (map quantidade g),
                   valor_total = agg_sum (map valor_total_item g),
                   CFOP_predominante = agg_cfop (map CFOP g),
                   r_NCM = agg_first (map NCM g),
                   valor_unitario_medio = agg_mean (map valor_unitario g)\<rparr>)
             (sort (remdups (map (\<lambda>r. the (codigo_produto r)) df_clean)))))"

section \<open>Notions used to state the properties\<close>

text \<open>The first element of a list that has a given tag, and the text of a lookup.\<close>

definition first_match :: "string option \<times> string \<Rightarrow> element list \<Rightarrow> element option" where
  "first_match tg es = (case filter (tag_matches tg) es of [] \<Rightarrow> None | x # _ \<Rightarrow> Some x)"

definition text_of :: "element option \<Rightarrow> string option" where
  "text_of found = (case found of None \<Rightarrow> None | Some f \<Rightarrow> etext f)"

text \<open>A path whose prefix, when it has one, is bound by the namespace map.\<close>

definition prefix_bound :: "path \<Rightarrow> nsmap option \<Rightarrow> bool" where
  "prefix_bound p namespaces =
     (case p of Path a prefix name \<Rightarrow>
        (case prefix of
           None \<Rightarrow> True
         | Some q \<Rightarrow> (case namespaces of None \<Rightarrow> False | Some m \<Rightarrow> map_of m q \<noteq> None)))"

text \<open>
  The two lookups of the emission time that the specification speaks of: the path
  \<open>ide/dhEmi\<close> with every step in the namespace, and the same path with no step
  in a namespace.
\<close>

definition canonical_timestamp :: "element \<Rightarrow> string option" where
  "canonical_timestamp root_el =
     (case first_match (Some nfe, ''ide'') (descendants root_el) of
        None \<Rightarrow> None
      | Some ide \<Rightarrow> text_of (first_match (Some nfe, ''dhEmi'') (children ide)))"

definition unqualified_timestamp :: "element \<Rightarrow> string option" where
  "unqualified_timestamp root_el =
     (case first_match (None, ''ide'') (descendants root_el) of
        None \<Rightarrow> None
      | Some ide \<Rightarrow> text_of (first_match (None, ''dhEmi'') (children ide)))"

text \<open>
  The values that the extractor computes for one \<open>det\<close> element, without the
  exceptions (none is raised, as \<open>extract_item_eq\<close> shows): the \<open>prod\<close> element, the
  text of a field, the float of a text, and the item.
\<close>

definition prod_of :: "element \<Rightarrow> element option" where
  "prod_of det =
     (case first_match (Some nfe, ''prod'') (children det) of
        Some p \<Rightarrow> Some p
      | None \<Rightarrow> first_match (None, ''prod'') (children det))"

definition field_text :: "element \<Rightarrow> string \<Rightarrow> string option" where
  "field_text p n =
     py_or (text_of (first_match (Some nfe, n) (children p)))
           (text_of (first_match (None, n) (children p)))"

definition float_value :: "string option \<Rightarrow> pyfloat" where
  "float_value t = (case float_or_zero t of Inr v \<Rightarrow> v | Inl e \<Rightarrow> Finite 0)"

definition item_of :: "string \<Rightarrow> string option \<Rightarrow> string \<Rightarrow> element \<Rightarrow> (string option item) option" where
  "item_of arquivo dh_emi tipo_doc det =
     (case prod_of det of
        None \<Rightarrow> None
      | Some p \<Rightarrow>
          if truthy (field_text p ''cProd'') \<or> truthy (field_text p ''xProd'')
          then Some \<lparr>arquivo_origem = arquivo, data_hora_emissao = dh_emi,
                 tipo_documento = tipo_doc, codigo_produto = field_text p ''cProd'',
                 nome_produto = field_text p ''xProd'', NCM = field_text p ''NCM'',
                 CFOP = field_text p ''CFOP'', codigo_barras = field_text p ''cEAN'',
                 quantidade = float_value (field_text p ''qCom''),
                 valor_unitario = float_value (field_text p ''vUnCom''),
                 valor_total_item =
                   fmul (float_value (field_text p ''qCom''))
                        (float_value (field_text p ''vUnCom''))\<rparr>
          else None)"

definition dh_emi_of :: "element \<Rightarrow> string option" where
  "dh_emi_of root_el =
     (if first_match (Some nfe, ''ide'') (descendants root_el) \<noteq> None
      then canonical_timestamp root_el else unqualified_timestamp root_el)"

definition dets_of :: "element \<Rightarrow> element list" where
  "dets_of root_el =
     (if filter (tag_matches (Some nfe, ''det'')) (descendants root_el) = []
      then filter (tag_matches (None, ''det'')) (descendants root_el)
      else filter (tag_matches (Some nfe, ''det'')) (descendants root_el))"

text \<open>The items that one file of a batch contributes.\<close>

definition items_of_file :: "string \<Rightarrow> string \<times> xml_source \<Rightarrow> string option item list" where
  "items_of_file tipo_doc f =
     (case parse_xml_base (fst f) (snd f) tipo_doc of Inr itens \<Rightarrow> itens | Inl e \<Rightarrow> [])"

text \<open>
  A number text without a minus sign and without the letter \<open>n\<close>: it denotes no
  negative number, no NaN and no infinity.
\<close>

definition plain_number_text :: "string \<Rightarrow> bool" where
  "plain_number_text s = (CHR ''-'' \<notin> set s \<and> CHR ''n'' \<notin> set s \<and> CHR ''N'' \<notin> set s)"

text \<open>
  A document in which every element is in a given namespace, the same document with
  every namespace stripped, and a document in which no element has the empty string
  as its text (lxml gives \<open>None\<close> for an element without text, and \<open>''\<close> only for
  an empty text node such as an empty CDATA section).
\<close>

fun all_in_ns :: "string \<Rightarrow> element \<Rightarrow> bool" where
  "all_in_ns uri (Element u n t cs) = (u = Some uri \<and> (\<forall>c \<in> set cs. all_in_ns uri c))"

fun strip_ns :: "element \<Rightarrow> element" where
  "strip_ns (Element u n t cs) = Element None n t (map strip_ns cs)"

fun no_empty_text :: "element \<Rightarrow> bool" where
  "no_empty_text (Element u n t cs) = (t \<noteq> Some [] \<and> (\<forall>c \<in> set cs. no_empty_text c))"

text \<open>
  The category codes, nulls left out, of the records of one product, in the order of
  the records.
\<close>

definition group_cfops :: "'d item list \<Rightarrow> string \<Rightarrow> string list" where
  "group_cfops df k =
     map the (filter (\<lambda>c. c \<noteq> None) (map CFOP (filter (\<lambda>r. codigo_produto r = Some k) df)))"

text \<open>
  The tie-break that the specification describes: among the values of the highest
  count, the one met first.
\<close>

definition first_encountered_mode :: "string list \<Rightarrow> string option" where
  "first_encountered_mode cs =
     List.find (\<lambda>v. \<forall>w \<in> set cs. count_list cs w \<le> count_list cs v) cs"

text \<open>
  A plain sum and a plain mean of floats, from left to right, to run the summary on
  concrete frames; the summation of pandas may round differently.
\<close>

definition plain_sum :: "pyfloat list \<Rightarrow> pyfloat" where
  "plain_sum xs = foldl fadd (Finite 0) xs"

definition plain_mean :: "pyfloat list \<Rightarrow> pyfloat" where
  "plain_mean xs =
     (case plain_sum xs of
        Finite a \<Rightarrow> round_double (a / of_nat (length xs))
      | PosInf \<Rightarrow> PosInf
      | NegInf \<Rightarrow> NegInf
      | NaN \<Rightarrow> NaN)"

text \<open>A row of a frame with a product code, a category code and a quantity.\<close>

definition row_of :: "string \<Rightarrow> string option \<Rightarrow> pyfloat \<Rightarrow> pyfloat \<Rightarrow> string option item" where
  "row_of code cfop q v =
     \<lparr>arquivo_origem = ''a.xml'', data_hora_emissao = None, tipo_documento = ''Venda'',
      codigo_produto = Some code, nome_produto = None, NCM = None, CFOP = cfop,
      codigo_barras = None, quantidade = q, valor_unitario = v,
      valor_total_item = fmul q v\<rparr>"

section \<open>Facts about floats\<close>

lemma pow2_pos: "0 < pow2 k"
  by (simp add: pow2_def)

lemma pow10_pos: "0 < pow10 k"
  by (simp add: pow10_def)

lemma round_double_pos_not_nan: "round_double_pos r \<noteq> NaN"
  by (simp add: round_double_pos_def Let_def)

lemma round_double_not_nan: "round_double r \<noteq> NaN"
  using round_double_pos_not_nan[of r] round_double_pos_not_nan[of "- r"]
  by (auto simp: round_double_def fneg_def split: pyfloat.splits)

lemma round_half_even_int: "round_half_even (of_int n) = n"
  by (simp add: round_half_even_def Let_def)

lemma round_half_even_nonneg: "0 \<le> x \<Longrightarrow> 0 \<le> round_half_even x"
  by (auto simp: round_half_even_def Let_def)

text \<open>Integers up to \<open>2 ^ 53\<close> are doubles: rounding leaves them as they are.\<close>

lemma floor_log2_int:
  assumes "0 < n"
  shows "floor_log2 (of_int n) = bitlen n - 1"
proof -
  have b: "2 ^ nat (bitlen n - 1) \<le> n"
    using bitlen_bounds[OF assms] by simp
  have pos: "0 < bitlen n"
    using assms bitlen_eq_zero_iff[of n] bitlen_nonneg[of n] by linarith
  have one: "bitlen 1 = 1"
    by (simp add: bitlen_alt_def)
  have "(of_int (2 ^ nat (bitlen n - 1)) :: rat) \<le> of_int n"
    using b by (simp only: of_int_le_iff)
  then have "pow2 (bitlen n - 1) \<le> of_int n"
    using pos by (simp add: pow2_def)
  then show ?thesis
    by (simp add: floor_log2_def Let_def quotient_of_int one)
qed

lemma round_double_pos_int:
  assumes "0 < n" and "n \<le> 2 ^ 53"
  shows "round_double_pos (of_int n) = Finite (of_int n)"
proof -
  define e where "e = max (floor_log2 (of_int n) - 52) (- 1074)"
  have fl: "floor_log2 (of_int n) = bitlen n - 1"
    using floor_log2_int[OF assms(1)] .
  have lo: "2 ^ nat (bitlen n - 1) \<le> n"
    using bitlen_bounds[OF assms(1)] by simp
  have bpos: "0 < bitlen n"
    using assms(1) bitlen_eq_zero_iff[of n] bitlen_nonneg[of n] by linarith
  have ble: "bitlen n \<le> 54"
  proof (rule ccontr)
    assume "\<not> bitlen n \<le> 54"
    then have "54 \<le> nat (bitlen n - 1)" by simp
    then have "(2::int) ^ 54 \<le> 2 ^ nat (bitlen n - 1)"
      by (intro power_increasing) auto
    with lo assms(2) show False by simp
  qed
  have e_eq: "e = bitlen n - 53"
    using bpos by (simp add: e_def fl)
  have "\<exists>m. of_int n / pow2 e = of_int m"
  proof (cases "e \<le> 0")
    case True
    then have "of_int n / pow2 e = of_int (n * 2 ^ nat (- e))"
      by (cases "e = 0") (simp_all add: pow2_def)
    then show ?thesis by blast
  next
    case False
    then have e1: "e = 1" using e_eq ble by simp
    then have "bitlen n = 54" using e_eq by simp
    then have "2 ^ 53 \<le> n" using lo by simp
    then have "n = 2 ^ 53" using assms(2) by simp
    then have "of_int n / pow2 e = of_int (2 ^ 52)"
      using e1 by (simp add: pow2_def)
    then show ?thesis by blast
  qed
  then obtain m where m: "of_int n / pow2 e = of_int m" by blast
  have "of_int (round_half_even (of_int n / pow2 e)) = of_int n / pow2 e"
    by (simp add: m round_half_even_int)
  then have v: "of_int (round_half_even (of_int n / pow2 e)) * pow2 e = of_int n"
    using pow2_pos[of e] by simp
  have "(of_int n :: rat) \<le> of_int (2 ^ 53)"
    using assms(2) by (simp only: of_int_le_iff)
  then have "\<not> pow2 1024 \<le> (of_int n :: rat)"
    by (simp add: pow2_def)
  then show ?thesis
    unfolding round_double_pos_def Let_def e_def[symmetric] v by simp
qed

lemma round_double_int:
  assumes "\<bar>n\<bar> \<le> 2 ^ 53"
  shows "round_double (of_int n) = Finite (of_int n)"
proof -
  consider "n = 0" | "0 < n" | "n < 0" by linarith
  then show ?thesis
  proof cases
    case 1
    then show ?thesis by (simp add: round_double_def)
  next
    case 2
    then show ?thesis
      using assms round_double_pos_int[of n] by (simp add: round_double_def)
  next
    case 3
    then have "round_double_pos (of_int (- n)) = Finite (of_int (- n))"
      using assms by (intro round_double_pos_int) auto
    then show ?thesis
      using 3 by (simp add: round_double_def fneg_def)
  qed
qed

lemma round_double_numeral [simp]:
  "numeral k \<le> (2::int) ^ 53 \<Longrightarrow> round_double (numeral k) = Finite (numeral k)"
  "round_double 0 = Finite 0"
  "round_double 1 = Finite 1"
  "numeral k \<le> (2::int) ^ 53 \<Longrightarrow> round_double (- numeral k) = Finite (- numeral k)"
  using round_double_int[of "numeral k"] round_double_int[of "- numeral k"] round_double_int[of 1]
  by (simp_all add: round_double_def)

text \<open>\<open>float(s)\<close> raises nothing but \<open>ValueError\<close>.\<close>

lemma py_float_error: "py_float s = Inl e \<Longrightarrow> e = ValueError"
  by (auto simp: py_float_def Let_def split: if_splits option.splits prod.splits)

lemma float_or_zero_total: "\<exists>v. float_or_zero t = Inr v"
  by (auto simp: float_or_zero_def split: option.splits sum.splits dest: py_float_error)

text \<open>The definitions that evaluate \<open>float(s)\<close> on a literal.\<close>

lemmas float_eval = py_float_def strip_space_def is_space_def parse_decimal_def Let_def
  split_sign_def is_digit_def digits_val_def digit_val_def lower_char_def pow10_def

section \<open>Facts about the lookups\<close>

lemma bnd_Inr [simp]: "bnd (Inr x) f = f x"
  by (simp add: bnd_def)

lemma bnd_Inl [simp]: "bnd (Inl e) f = Inl e"
  by (simp add: bnd_def)

lemma resolve_ns [simp]: "resolve_tag (Some ns) (Some ''ns'') n = Inr (Some nfe, n)"
  by (simp add: resolve_tag_def ns_def)

lemma resolve_plain [simp]: "resolve_tag m None n = Inr (None, n)"
  by (simp add: resolve_tag_def)

lemma findall_ns [simp]:
  "findall_xml e (Path a (Some ''ns'') n) (Some ns) =
     Inr (filter (tag_matches (Some nfe, n)) (candidates a e))"
  by (simp add: findall_xml_def)

lemma findall_plain [simp]:
  "findall_xml e (Path a None n) m = Inr (filter (tag_matches (None, n)) (candidates a e))"
  by (simp add: findall_xml_def)

lemma find_ns [simp]:
  "find_xml e (Path a (Some ''ns'') n) (Some ns) =
     Inr (first_match (Some nfe, n) (candidates a e))"
  by (simp add: find_xml_def first_match_def)

lemma find_plain [simp]:
  "find_xml e (Path a None n) m = Inr (first_match (None, n) (candidates a e))"
  by (simp add: find_xml_def first_match_def)

lemma get_text_ns [simp]:
  "get_xml_text (Some e) (Path a (Some ''ns'') n) (Some ns) =
     Inr (text_of (first_match (Some nfe, n) (candidates a e)))"
  by (simp add: get_xml_text_def text_of_def)

lemma get_text_plain [simp]:
  "get_xml_text (Some e) (Path a None n) m =
     Inr (text_of (first_match (None, n) (candidates a e)))"
  by (simp add: get_xml_text_def text_of_def)

lemma candidates_simps [simp]:
  "candidates Child e = children e"
  "candidates Descendant e = descendants e"
  by (simp_all add: candidates_def)

lemma prod_field_eq: "prod_field p n = Inr (field_text p n)"
  by (simp add: prod_field_def field_text_def py_or_def)

lemma find_prod_eq: "find_prod det = Inr (prod_of det)"
  by (simp add: find_prod_def prod_of_def split: option.splits)

lemma float_or_zero_eq: "float_or_zero t = Inr (float_value t)"
  using float_or_zero_total[of t] by (auto simp: float_value_def)

lemma extract_item_eq:
  "extract_item arquivo dh_emi tipo_doc det = Inr (item_of arquivo dh_emi tipo_doc det)"
  by (simp add: extract_item_def item_of_def find_prod_eq prod_field_eq float_or_zero_eq
      split: option.splits)

lemma extract_items_eq:
  "extract_items arquivo dh_emi tipo_doc dets =
     Inr (List.map_filter (item_of arquivo dh_emi tipo_doc) dets)"
  by (induction dets) (simp_all add: extract_item_eq List.map_filter_simps split: option.splits)

lemma extract_dh_emi_eq: "extract_dh_emi root_el = Inr (dh_emi_of root_el)"
  by (simp add: extract_dh_emi_def dh_emi_of_def canonical_timestamp_def
      unqualified_timestamp_def split: option.splits)

lemma find_det_elements_eq: "find_det_elements root_el = Inr (dets_of root_el)"
  by (simp add: find_det_elements_def dets_of_def)

lemma parse_tree_eq:
  "parse_tree arquivo root_el tipo_doc =
     Inr (List.map_filter (item_of arquivo (dh_emi_of root_el) tipo_doc) (dets_of root_el))"
  by (simp add: parse_tree_def extract_dh_emi_eq find_det_elements_eq extract_items_eq)

lemma parse_xml_base_Document:
  "parse_xml_base arquivo (Document root_el) tipo_doc =
     Inr (List.map_filter (item_of arquivo (dh_emi_of root_el) tipo_doc) (dets_of root_el))"
  by (simp add: parse_xml_base_def et_parse_def parse_tree_eq)

lemma parse_xml_base_failed:
  "parse_xml_base arquivo Malformed tipo_doc = Inr []"
  "parse_xml_base arquivo Unreadable tipo_doc = Inr []"
  by (simp_all add: parse_xml_base_def et_parse_def)

lemma parse_xml_base_total: "\<exists>itens. parse_xml_base arquivo src tipo_doc = Inr itens"
  by (cases src) (simp_all add: parse_xml_base_Document parse_xml_base_failed)

lemma in_map_filter: "i \<in> set (List.map_filter f xs) \<longleftrightarrow> (\<exists>x \<in> set xs. f x = Some i)"
  by (induction xs) (auto simp: List.map_filter_simps split: option.splits)

text \<open>The definitions that evaluate the extractor on a concrete tree.\<close>

lemmas extractor_eval = parse_xml_base_Document item_of_def prod_of_def field_text_def
  dh_emi_of_def dets_of_def canonical_timestamp_def unqualified_timestamp_def
  List.map_filter_simps first_match_def text_of_def tag_matches_def py_or_def truthy_def
  float_value_def float_or_zero_def fmul_def

section \<open>The lookup helper \<open>get_xml_text\<close>\<close>

text \<open>
  Claim C10, as the code has it. For the element \<open>None\<close> the helper returns \<open>None\<close>,
  whatever the path and the namespace map. For an element and a path whose prefix
  the namespace map binds (or that has no prefix), it returns the text of the
  element that \<open>find\<close> gives, or \<open>None\<close> when \<open>find\<close> gives nothing, and raises
  nothing. For a path whose prefix the map does not bind, \<open>find\<close> raises
  \<open>SyntaxError\<close> and the helper lets it through.
\<close>

theorem get_xml_text_total:
  "get_xml_text None p namespaces = Inr None \<and>
   (prefix_bound p namespaces \<longrightarrow>
      (\<exists>found. find_xml e p namespaces = Inr found \<and>
         get_xml_text (Some e) p namespaces = Inr (text_of found))) \<and>
   (\<not> prefix_bound p namespaces \<longrightarrow>
      get_xml_text (Some e) p namespaces = Inl SyntaxError)"
proof (cases p)
  case (Path a prefix name)
  show ?thesis
  proof (cases "prefix_bound p namespaces")
    case True
    then obtain tg where "resolve_tag namespaces prefix name = Inr tg"
      using Path by (auto simp: prefix_bound_def resolve_tag_def split: option.splits)
    then show ?thesis
      using True Path
      by (simp add: get_xml_text_def find_xml_def findall_xml_def text_of_def)
  next
    case False
    then have "resolve_tag namespaces prefix name = Inl SyntaxError"
      using Path by (auto simp: prefix_bound_def resolve_tag_def split: option.splits)
    then show ?thesis
      using False Path
      by (simp add: get_xml_text_def find_xml_def findall_xml_def)
  qed
qed

text \<open>
  A witness: the lookup \<open>./ns:cProd\<close> with the map \<open>ns\<close> on a \<open>prod\<close> element.
\<close>

theorem get_xml_text_total_witness:
  "prefix_bound (Path Child (Some ''ns'') ''cProd'') (Some ns) \<and>
   get_xml_text None (Path Child (Some ''ns'') ''cProd'') (Some ns) = Inr None \<and>
   get_xml_text
     (Some (Element (Some nfe) ''prod'' None [Element (Some nfe) ''cProd'' (Some ''P1'') []]))
     (Path Child (Some ''ns'') ''cProd'') (Some ns) = Inr (Some ''P1'')"
proof -
  have b: "prefix_bound (Path Child (Some ''ns'') ''cProd'') (Some ns)"
    by (simp add: prefix_bound_def ns_def)
  show ?thesis
    using b get_xml_text_total[of "Path Child (Some ''ns'') ''cProd''" "Some ns"
      "Element (Some nfe) ''prod'' None [Element (Some nfe) ''cProd'' (Some ''P1'') []]"]
    by (simp add: first_match_def text_of_def tag_matches_def)
qed

text \<open>
  The claim as the specification states it fails: with a path of the extractor that
  has a prefix and the namespace map \<open>None\<close>, the helper raises.
\<close>

theorem get_xml_text_raises:
  "get_xml_text (Some (Element None ''prod'' None [])) (Path Child (Some ''ns'') ''cProd'') None
     = Inl SyntaxError"
  by (simp add: get_xml_text_def find_xml_def findall_xml_def resolve_tag_def)

section \<open>The emission time\<close>

text \<open>
  Claim C9, as the code has it. When the document has an \<open>ide\<close> element of the
  namespace, the emission time is the text of the \<open>dhEmi\<close> child of the namespace
  of the first such element, and nothing else is tried. Only when the document has
  no \<open>ide\<close> element of the namespace is the path tried without the namespace: the
  first unqualified \<open>ide\<close> and its unqualified \<open>dhEmi\<close> child.
\<close>

theorem extract_dh_emi_fallback:
  "extract_dh_emi root_el =
     Inr (if first_match (Some nfe, ''ide'') (descendants root_el) \<noteq> None
          then canonical_timestamp root_el
          else unqualified_timestamp root_el)"
proof (cases "first_match (Some nfe, ''ide'') (descendants root_el)")
  case None
  then show ?thesis
    by (simp add: extract_dh_emi_def canonical_timestamp_def unqualified_timestamp_def
        split: option.splits)
next
  case (Some ide)
  then show ?thesis
    by (simp add: extract_dh_emi_def canonical_timestamp_def)
qed

text \<open>A witness: a document without namespaces gets its emission time by the fallback.\<close>

theorem extract_dh_emi_fallback_witness:
  "extract_dh_emi
     (Element None ''NFe'' None
        [Element None ''ide'' None [Element None ''dhEmi'' (Some ''2024-01-02T10:00:00'') []]])
     = Inr (Some ''2024-01-02T10:00:00'')"
  using extract_dh_emi_fallback[of "Element None ''NFe'' None
        [Element None ''ide'' None [Element None ''dhEmi'' (Some ''2024-01-02T10:00:00'') []]]"]
  by (simp add: canonical_timestamp_def unqualified_timestamp_def first_match_def text_of_def
      tag_matches_def)

text \<open>
  The claim as the specification states it fails on two documents. In the first the
  header \<open>ide\<close> is in the namespace and its \<open>dhEmi\<close> child is not: no emission time
  is extracted. In the second an empty \<open>ide\<close> of the namespace comes before an
  unqualified \<open>ide\<close> with its \<open>dhEmi\<close>: the lookup in the namespace gives nothing,
  the unqualified path has a text, and the extractor does not try it.
\<close>

theorem extract_dh_emi_no_retry:
  "extract_dh_emi
     (Element None ''NFe'' None
        [Element (Some nfe) ''ide'' None
           [Element None ''dhEmi'' (Some ''2024-01-02T10:00:00'') []]])
     = Inr None \<and>
   canonical_timestamp
     (Element None ''NFe'' None
        [Element (Some nfe) ''ide'' None [],
         Element None ''ide'' None [Element None ''dhEmi'' (Some ''2024-01-02T10:00:00'') []]])
     = None \<and>
   unqualified_timestamp
     (Element None ''NFe'' None
        [Element (Some nfe) ''ide'' None [],
         Element None ''ide'' None [Element None ''dhEmi'' (Some ''2024-01-02T10:00:00'') []]])
     = Some ''2024-01-02T10:00:00'' \<and>
   extract_dh_emi
     (Element None ''NFe'' None
        [Element (Some nfe) ''ide'' None [],
         Element None ''ide'' None [Element None ''dhEmi'' (Some ''2024-01-02T10:00:00'') []]])
     = Inr None"
  by (simp add: extract_dh_emi_eq dh_emi_of_def canonical_timestamp_def
      unqualified_timestamp_def first_match_def text_of_def tag_matches_def)

section \<open>The conversion of quantity and unit price\<close>

text \<open>
  Claim C8. The conversion of a quantity or unit price text raises nothing: a
  missing text, an empty text and a text that \<open>float\<close> rejects all give \<open>0.0\<close>, and
  the extraction of an item raises nothing either. An item whose quantity text is
  \<open>abc\<close> and whose unit price text is \<open>5.0\<close> has the quantity \<open>0.0\<close>, the unit
  price \<open>5.0\<close> and the line total \<open>0.0\<close>.
\<close>

theorem float_conversion_never_raises:
  "(\<exists>v. float_or_zero t = Inr v) \<and>
   float_or_zero None = Inr (Finite 0) \<and>
   float_or_zero (Some []) = Inr (Finite 0) \<and>
   (py_float s = Inl e \<longrightarrow> float_or_zero (Some s) = Inr (Finite 0)) \<and>
   (\<exists>r. extract_item arquivo dh_emi tipo_doc det = Inr r) \<and>
   (find_prod det = Inr (Some p) \<and> prod_field p ''qCom'' = Inr (Some ''abc'') \<and>
      prod_field p ''vUnCom'' = Inr (Some ''5.0'') \<and>
      extract_item arquivo dh_emi tipo_doc det = Inr (Some i) \<longrightarrow>
      quantidade i = Finite 0 \<and> valor_unitario i = Finite 5 \<and> valor_total_item i = Finite 0)"
proof -
  have a: "float_value (Some ''abc'') = Finite 0"
    by (simp add: float_value_def float_or_zero_def float_eval)
  have b: "float_value (Some ''5.0'') = Finite 5"
    by (simp add: float_value_def float_or_zero_def float_eval)
  have c: "py_float s = Inl e \<longrightarrow> float_or_zero (Some s) = Inr (Finite 0)"
    using py_float_error[of s e] by (auto simp: float_or_zero_def float_eval)
  have d: "find_prod det = Inr (Some p) \<and> prod_field p ''qCom'' = Inr (Some ''abc'') \<and>
      prod_field p ''vUnCom'' = Inr (Some ''5.0'') \<and>
      extract_item arquivo dh_emi tipo_doc det = Inr (Some i) \<longrightarrow>
      quantidade i = Finite 0 \<and> valor_unitario i = Finite 5 \<and> valor_total_item i = Finite 0"
    by (auto simp: find_prod_eq prod_field_eq extract_item_eq item_of_def a b fmul_def
        split: if_splits)
  have n: "float_or_zero None = Inr (Finite 0)" "float_or_zero (Some []) = Inr (Finite 0)"
    by (simp_all add: float_or_zero_def)
  have r: "\<exists>r. extract_item arquivo dh_emi tipo_doc det = Inr r"
    by (simp add: extract_item_eq)
  show ?thesis
    using float_or_zero_total[of t] n c r d by (intro conjI)
qed

text \<open>A witness: the item of the scenario, in a document of the namespace.\<close>

theorem float_conversion_never_raises_witness:
  "py_float ''abc'' = Inl ValueError \<and>
   float_or_zero (Some ''abc'') = Inr (Finite 0) \<and>
   (\<exists>i. extract_item ''a.xml'' None ''Venda''
          (Element (Some nfe) ''det'' None
             [Element (Some nfe) ''prod'' None
                [Element (Some nfe) ''cProd'' (Some ''P1'') [],
                 Element (Some nfe) ''qCom'' (Some ''abc'') [],
                 Element (Some nfe) ''vUnCom'' (Some ''5.0'') []]]) = Inr (Some i) \<and>
        quantidade i = Finite 0 \<and> valor_unitario i = Finite 5 \<and>
        valor_total_item i = Finite 0)"
proof -
  let ?p = "Element (Some nfe) ''prod'' None
                [Element (Some nfe) ''cProd'' (Some ''P1'') [],
                 Element (Some nfe) ''qCom'' (Some ''abc'') [],
                 Element (Some nfe) ''vUnCom'' (Some ''5.0'') []]"
  let ?det = "Element (Some nfe) ''det'' None [?p]"
  have e: "py_float ''abc'' = Inl ValueError"
    by (simp add: float_eval)
  have p: "find_prod ?det = Inr (Some ?p)"
    by (simp add: find_prod_eq prod_of_def first_match_def tag_matches_def)
  have q: "prod_field ?p ''qCom'' = Inr (Some ''abc'')"
    by (simp add: prod_field_eq field_text_def first_match_def tag_matches_def text_of_def
        py_or_def truthy_def)
  have v: "prod_field ?p ''vUnCom'' = Inr (Some ''5.0'')"
    by (simp add: prod_field_eq field_text_def first_match_def tag_matches_def text_of_def
        py_or_def truthy_def)
  obtain i where i: "extract_item ''a.xml'' None ''Venda'' ?det = Inr (Some i)"
    by (simp add: extract_item_eq item_of_def prod_of_def field_text_def first_match_def
        tag_matches_def text_of_def py_or_def truthy_def)
  show ?thesis
    using float_conversion_never_raises[of "Some ''abc''" "''abc''" ValueError "''a.xml''" None
        "''Venda''" ?det ?p i] e p q v i
    by simp
qed

section \<open>The retention of items\<close>

text \<open>
  Claim C5. The extractor always returns a list, and every item of the list has a
  product code or a product name that is not null. An item element whose product
  code and product name are both null gives no item.
\<close>

theorem retention_invariant:
  "(\<exists>itens. parse_xml_base arquivo src tipo_doc = Inr itens \<and>
      (\<forall>i \<in> set itens. codigo_produto i \<noteq> None \<or> nome_produto i \<noteq> None)) \<and>
   (find_prod det = Inr (Some p) \<and> prod_field p ''cProd'' = Inr None \<and>
      prod_field p ''xProd'' = Inr None \<longrightarrow>
      extract_item arquivo dh_emi tipo_doc det = Inr None)"
proof -
  have kept: "codigo_produto i \<noteq> None \<or> nome_produto i \<noteq> None"
    if "item_of a d t x = Some i" for a d t x i
    using that by (auto simp: item_of_def truthy_def split: option.splits if_splits)
  have first: "\<exists>itens. parse_xml_base arquivo src tipo_doc = Inr itens \<and>
      (\<forall>i \<in> set itens. codigo_produto i \<noteq> None \<or> nome_produto i \<noteq> None)"
  proof (cases src)
    case (Document root_el)
    have "codigo_produto i \<noteq> None \<or> nome_produto i \<noteq> None"
      if "i \<in> set (List.map_filter (item_of arquivo (dh_emi_of root_el) tipo_doc)
                      (dets_of root_el))" for i
    proof -
      from that obtain x where "item_of arquivo (dh_emi_of root_el) tipo_doc x = Some i"
        by (auto simp: in_map_filter)
      then show ?thesis by (rule kept)
    qed
    then show ?thesis
      using Document by (simp add: parse_xml_base_Document)
  qed (simp_all add: parse_xml_base_failed)
  have second: "find_prod det = Inr (Some p) \<and> prod_field p ''cProd'' = Inr None \<and>
      prod_field p ''xProd'' = Inr None \<longrightarrow>
      extract_item arquivo dh_emi tipo_doc det = Inr None"
    by (auto simp: find_prod_eq prod_field_eq extract_item_eq item_of_def truthy_def)
  show ?thesis
    using first second by blast
qed

text \<open>
  A witness: of two item elements, the one with a product name is kept and the one
  with neither code nor name is dropped.
\<close>

theorem retention_invariant_witness:
  "\<exists>i. parse_xml_base ''a.xml''
      (Document (Element (Some nfe) ''NFe'' None
         [Element (Some nfe) ''det'' None
            [Element (Some nfe) ''prod'' None
               [Element (Some nfe) ''xProd'' (Some ''Arroz'') []]],
          Element (Some nfe) ''det'' None
            [Element (Some nfe) ''prod'' None
               [Element (Some nfe) ''NCM'' (Some ''10063021'') []]]]))
      ''Venda'' = Inr [i] \<and> codigo_produto i = None \<and> nome_produto i = Some ''Arroz''"
proof -
  let ?doc = "Document (Element (Some nfe) ''NFe'' None
         [Element (Some nfe) ''det'' None
            [Element (Some nfe) ''prod'' None
               [Element (Some nfe) ''xProd'' (Some ''Arroz'') []]],
          Element (Some nfe) ''det'' None
            [Element (Some nfe) ''prod'' None
               [Element (Some nfe) ''NCM'' (Some ''10063021'') []]]])"
  obtain i where i: "parse_xml_base ''a.xml'' ?doc ''Venda'' = Inr [i]"
    and c: "codigo_produto i = None" and n: "nome_produto i = Some ''Arroz''"
    by (simp add: extractor_eval)
  show ?thesis
    using retention_invariant[of "''a.xml''" ?doc "''Venda''"] i c n by auto
qed

section \<open>The batch\<close>

lemma process_files_eq:
  "process_files tipo_doc files (all_data, processed, errors) =
     (all_data @ concat (map (items_of_file tipo_doc) files),
      processed + length (filter (\<lambda>f. items_of_file tipo_doc f \<noteq> []) files),
      errors)"
proof (induction files arbitrary: all_data processed errors)
  case Nil
  show ?case by simp
next
  case (Cons f files)
  obtain filename src where f: "f = (filename, src)"
    by (cases f)
  obtain itens where p: "parse_xml_base filename src tipo_doc = Inr itens"
    using parse_xml_base_total by blast
  show ?case
    by (simp add: f p Cons.IH items_of_file_def)
qed

lemma items_of_file_Document:
  "items_of_file tipo_doc (filename, Document root_el) =
     List.map_filter (item_of filename (dh_emi_of root_el) tipo_doc) (dets_of root_el)"
  by (simp add: items_of_file_def parse_xml_base_Document)

lemma items_of_file_failed:
  "items_of_file tipo_doc (filename, Malformed) = []"
  "items_of_file tipo_doc (filename, Unreadable) = []"
  by (simp_all add: items_of_file_def parse_xml_base_failed)

lemma processar_Some:
  "processar_diretorio_xml to_datetime (Some listing) tipo_doc =
     (let files = filter (\<lambda>f. is_xml_name (fst f)) listing;
          all_data = concat (map (items_of_file tipo_doc) files)
      in \<lparr>frame = (if all_data = [] then []
                   else map2 coerce_row all_data (to_datetime (map data_hora_emissao all_data))),
          processed_count = length (filter (\<lambda>f. items_of_file tipo_doc f \<noteq> []) files),
          total_files = length files,
          error_files = []\<rparr>)"
  by (cases "filter (\<lambda>f. is_xml_name (fst f)) listing = []")
    (simp_all add: processar_diretorio_xml_def process_files_eq Let_def)

lemma item_of_total:
  "item_of arquivo dh_emi tipo_doc det = Some i \<Longrightarrow>
     valor_total_item i = fmul (quantidade i) (valor_unitario i)"
  by (auto simp: item_of_def split: option.splits if_splits)

lemma items_of_file_total:
  assumes "i \<in> set (items_of_file tipo_doc f)"
  shows "valor_total_item i = fmul (quantidade i) (valor_unitario i)"
proof (cases f)
  case (Pair filename src)
  show ?thesis
  proof (cases src)
    case (Document root_el)
    then obtain det where "item_of filename (dh_emi_of root_el) tipo_doc det = Some i"
      using assms Pair by (auto simp: items_of_file_Document in_map_filter)
    then show ?thesis by (rule item_of_total)
  qed (use assms Pair in \<open>simp_all add: items_of_file_failed\<close>)
qed

lemma fillna0_fmul:
  "fillna0 (fmul (fillna0 q) (fillna0 u)) = fillna0 (fmul q u)"
  by (cases q; cases u) (simp_all add: fillna0_def isnan_def fmul_def)

lemma in_map2D:
  "r \<in> set (if xs = [] then [] else map2 f xs ys) \<Longrightarrow> \<exists>x \<in> set xs. \<exists>y. r = f x y"
  by (auto dest: set_zip_leftD split: if_splits)

text \<open>The definitions that evaluate a batch on concrete files.\<close>

lemmas batch_eval = processar_Some items_of_file_Document items_of_file_failed is_xml_name_def
  lower_char_def coerce_row_def fillna0_def isnan_def Let_def

section \<open>The line total\<close>

text \<open>
  Claim C6, as the code has it. Every item that the extractor emits has
  \<open>valor_total_item\<close> equal to the float product of its \<open>quantidade\<close> and its
  \<open>valor_unitario\<close>. In every row of the frame of a batch, after the three columns
  are coerced one by one, \<open>valor_total_item\<close> is that product of the row, except
  that it is \<open>0.0\<close> where the product is NaN (an infinite factor and a zero one).
\<close>

theorem line_total_consistent:
  "(\<forall>itens. parse_xml_base arquivo src tipo_doc = Inr itens \<longrightarrow>
      (\<forall>i \<in> set itens. valor_total_item i = fmul (quantidade i) (valor_unitario i))) \<and>
   (\<forall>r \<in> set (frame (processar_diretorio_xml to_datetime diretorio tipo_doc)).
      valor_total_item r = fillna0 (fmul (quantidade r) (valor_unitario r)) \<and>
      (fmul (quantidade r) (valor_unitario r) \<noteq> NaN \<longrightarrow>
         feq (valor_total_item r) (fmul (quantidade r) (valor_unitario r))))"
proof -
  have creation: "valor_total_item i = fmul (quantidade i) (valor_unitario i)"
    if "parse_xml_base arquivo src tipo_doc = Inr itens" and "i \<in> set itens" for itens i
  proof -
    have "i \<in> set (items_of_file tipo_doc (arquivo, src))"
      using that by (simp add: items_of_file_def)
    then show ?thesis by (rule items_of_file_total)
  qed
  have coerced: "valor_total_item r = fillna0 (fmul (quantidade r) (valor_unitario r))"
    if "r \<in> set (frame (processar_diretorio_xml to_datetime diretorio tipo_doc))" for r
  proof (cases diretorio)
    case None
    then show ?thesis
      using that by (simp add: processar_diretorio_xml_def)
  next
    case (Some listing)
    define all_data where
      "all_data = concat (map (items_of_file tipo_doc) (filter (\<lambda>f. is_xml_name (fst f)) listing))"
    have "frame (processar_diretorio_xml to_datetime diretorio tipo_doc) =
        (if all_data = [] then []
         else map2 coerce_row all_data (to_datetime (map data_hora_emissao all_data)))"
      using Some by (simp add: processar_Some Let_def all_data_def)
    then have "r \<in> set (if all_data = [] then []
         else map2 coerce_row all_data (to_datetime (map data_hora_emissao all_data)))"
      using that by (simp only:)
    then have "\<exists>x \<in> set all_data. \<exists>y. r = coerce_row x y"
      by (rule in_map2D)
    then obtain i d where i: "i \<in> set all_data" and r: "r = coerce_row i d"
      by blast
    from i obtain f where "i \<in> set (items_of_file tipo_doc f)"
      by (auto simp: all_data_def)
    then have "valor_total_item i = fmul (quantidade i) (valor_unitario i)"
      by (rule items_of_file_total)
    then show ?thesis
      by (simp add: r coerce_row_def fillna0_fmul)
  qed
  have eq: "feq (fillna0 x) x" if "x \<noteq> NaN" for x
    using that by (simp add: feq_def fillna0_def isnan_def)
  show ?thesis
  proof (intro conjI)
    show "\<forall>itens. parse_xml_base arquivo src tipo_doc = Inr itens \<longrightarrow>
      (\<forall>i \<in> set itens. valor_total_item i = fmul (quantidade i) (valor_unitario i))"
      using creation by blast
    show "\<forall>r \<in> set (frame (processar_diretorio_xml to_datetime diretorio tipo_doc)).
      valor_total_item r = fillna0 (fmul (quantidade r) (valor_unitario r)) \<and>
      (fmul (quantidade r) (valor_unitario r) \<noteq> NaN \<longrightarrow>
         feq (valor_total_item r) (fmul (quantidade r) (valor_unitario r)))"
    proof (intro ballI conjI impI)
      fix r
      assume r: "r \<in> set (frame (processar_diretorio_xml to_datetime diretorio tipo_doc))"
      show "valor_total_item r = fillna0 (fmul (quantidade r) (valor_unitario r))"
        using coerced[OF r] .
      assume n: "fmul (quantidade r) (valor_unitario r) \<noteq> NaN"
      show "feq (valor_total_item r) (fmul (quantidade r) (valor_unitario r))"
        using coerced[OF r] eq[OF n] by simp
    qed
  qed
qed

text \<open>
  A witness: a batch of one file with one item of quantity \<open>3\<close> and unit price
  \<open>10\<close>; the timestamps stay as they are.
\<close>

theorem line_total_consistent_witness:
  "map (\<lambda>r. (quantidade r, valor_unitario r, valor_total_item r))
     (frame (processar_diretorio_xml (\<lambda>column. column)
        (Some [(''a.xml'', Document (Element (Some nfe) ''NFe'' None
           [Element (Some nfe) ''det'' None
              [Element (Some nfe) ''prod'' None
                 [Element (Some nfe) ''cProd'' (Some ''P1'') [],
                  Element (Some nfe) ''qCom'' (Some ''3'') [],
                  Element (Some nfe) ''vUnCom'' (Some ''10'') []]]]))]) ''Venda''))
     = [(Finite 3, Finite 10, Finite 30)] \<and>
   feq (Finite 30) (fmul (Finite 3) (Finite 10))"
proof -
  let ?dir = "Some [(''a.xml'', Document (Element (Some nfe) ''NFe'' None
           [Element (Some nfe) ''det'' None
              [Element (Some nfe) ''prod'' None
                 [Element (Some nfe) ''cProd'' (Some ''P1'') [],
                  Element (Some nfe) ''qCom'' (Some ''3'') [],
                  Element (Some nfe) ''vUnCom'' (Some ''10'') []]]]))]"
  let ?b = "processar_diretorio_xml (\<lambda>column. column) ?dir ''Venda''"
  obtain r where f: "frame ?b = [r]" and q: "quantidade r = Finite 3"
    and u: "valor_unitario r = Finite 10"
    by (simp add: batch_eval extractor_eval float_eval)
  have m: "fmul (Finite 3) (Finite 10) = Finite 30"
    by (simp add: fmul_def)
  have "valor_total_item r = Finite 30 \<and> feq (Finite 30) (fmul (Finite 3) (Finite 10))"
    using line_total_consistent[of "''a.xml''" Malformed "''Venda''" "\<lambda>column. column" ?dir] f q u m
    by (simp add: fillna0_def isnan_def feq_def)
  then show ?thesis
    using f q u by simp
qed

text \<open>
  The claim as the specification states it fails after the coercion: an item of
  quantity \<open>inf\<close> and unit price \<open>0\<close> has the line total NaN, which the batch
  replaces by \<open>0.0\<close>, while the product of the two columns is still NaN.
\<close>

theorem line_total_after_coercion:
  "map (\<lambda>r. (quantidade r, valor_unitario r, valor_total_item r))
     (frame (processar_diretorio_xml (\<lambda>column. column)
        (Some [(''a.xml'', Document (Element (Some nfe) ''NFe'' None
           [Element (Some nfe) ''det'' None
              [Element (Some nfe) ''prod'' None
                 [Element (Some nfe) ''cProd'' (Some ''P1'') [],
                  Element (Some nfe) ''qCom'' (Some ''inf'') [],
                  Element (Some nfe) ''vUnCom'' (Some ''0'') []]]]))]) ''Venda''))
     = [(PosInf, Finite 0, Finite 0)] \<and>
   fmul PosInf (Finite 0) = NaN \<and>
   \<not> feq (Finite 0) (fmul PosInf (Finite 0))"
  by (simp add: batch_eval extractor_eval float_eval feq_def)

section \<open>Documents that fail to parse\<close>

text \<open>
  Claim C2, as the code has it. A malformed document contributes no record, and the
  extractor raises nothing, whatever the file holds. The batch goes on with the
  other files: its frame holds the coerced items of all the files in their order,
  \<open>processed_count\<close> counts the files that gave an item and \<open>total_files\<close> counts
  the files. Since the extractor raises nothing, no file name ever enters
  \<open>error_files\<close>: the name of a malformed document is not recorded.
\<close>

theorem malformed_documents_isolated:
  "parse_xml_base arquivo Malformed tipo_doc = Inr [] \<and>
   (\<exists>itens. parse_xml_base arquivo src tipo_doc = Inr itens) \<and>
   error_files (processar_diretorio_xml to_datetime diretorio tipo_doc) = [] \<and>
   processar_diretorio_xml to_datetime (Some listing) tipo_doc =
     (let files = filter (\<lambda>f. is_xml_name (fst f)) listing;
          all_data = concat (map (items_of_file tipo_doc) files)
      in \<lparr>frame = (if all_data = [] then []
                   else map2 coerce_row all_data (to_datetime (map data_hora_emissao all_data))),
          processed_count = length (filter (\<lambda>f. items_of_file tipo_doc f \<noteq> []) files),
          total_files = length files,
          error_files = []\<rparr>)"
proof -
  have e: "error_files (processar_diretorio_xml to_datetime diretorio tipo_doc) = []"
  proof (cases diretorio)
    case None
    then show ?thesis by (simp add: processar_diretorio_xml_def)
  next
    case (Some l)
    then show ?thesis by (simp add: processar_Some Let_def)
  qed
  show ?thesis
    using e parse_xml_base_total[of arquivo src tipo_doc] processar_Some[of to_datetime listing tipo_doc]
    by (simp add: parse_xml_base_failed)
qed

text \<open>
  A witness: a batch of a malformed file and a file with one item. The item of the
  second file is in the frame, one file of two is counted, and \<open>error_files\<close> is
  empty.
\<close>

theorem malformed_documents_isolated_witness:
  "map codigo_produto (frame (processar_diretorio_xml (\<lambda>column. column)
      (Some [(''a.xml'', Malformed),
             (''b.xml'', Document (Element (Some nfe) ''NFe'' None
                [Element (Some nfe) ''det'' None
                   [Element (Some nfe) ''prod'' None
                      [Element (Some nfe) ''cProd'' (Some ''P2'') []]]]))]) ''Venda''))
     = [Some ''P2''] \<and>
   processed_count (processar_diretorio_xml (\<lambda>column. column)
      (Some [(''a.xml'', Malformed),
             (''b.xml'', Document (Element (Some nfe) ''NFe'' None
                [Element (Some nfe) ''det'' None
                   [Element (Some nfe) ''prod'' None
                      [Element (Some nfe) ''cProd'' (Some ''P2'') []]]]))]) ''Venda'') = 1 \<and>
   total_files (processar_diretorio_xml (\<lambda>column. column)
      (Some [(''a.xml'', Malformed),
             (''b.xml'', Document (Element (Some nfe) ''NFe'' None
                [Element (Some nfe) ''det'' None
                   [Element (Some nfe) ''prod'' None
                      [Element (Some nfe) ''cProd'' (Some ''P2'') []]]]))]) ''Venda'') = 2 \<and>
   error_files (processar_diretorio_xml (\<lambda>column. column)
      (Some [(''a.xml'', Malformed),
             (''b.xml'', Document (Element (Some nfe) ''NFe'' None
                [Element (Some nfe) ''det'' None
                   [Element (Some nfe) ''prod'' None
                      [Element (Some nfe) ''cProd'' (Some ''P2'') []]]]))]) ''Venda'') = []"
proof -
  let ?l = "[(''a.xml'', Malformed),
             (''b.xml'', Document (Element (Some nfe) ''NFe'' None
                [Element (Some nfe) ''det'' None
                   [Element (Some nfe) ''prod'' None
                      [Element (Some nfe) ''cProd'' (Some ''P2'') []]]]))]"
  have "processar_diretorio_xml (\<lambda>column. column) (Some ?l) ''Venda'' =
     (let files = filter (\<lambda>f. is_xml_name (fst f)) ?l;
          all_data = concat (map (items_of_file ''Venda'') files)
      in \<lparr>frame = (if all_data = [] then []
                   else map2 coerce_row all_data (map data_hora_emissao all_data)),
          processed_count = length (filter (\<lambda>f. items_of_file ''Venda'' f \<noteq> []) files),
          total_files = length files,
          error_files = []\<rparr>)"
    using malformed_documents_isolated[of "''a.xml''" "''Venda''" Malformed "\<lambda>column. column"
        "Some ?l" ?l]
    by simp
  then show ?thesis
    by (simp add: batch_eval extractor_eval float_eval del: processar_Some)
qed

text \<open>
  The claim as the specification states it fails: in a batch of a malformed file and
  a good one, the name of the malformed file is not in \<open>error_files\<close>.
\<close>

theorem malformed_document_not_recorded:
  "''a.xml'' \<notin> set (error_files (processar_diretorio_xml (\<lambda>column. column)
      (Some [(''a.xml'', Malformed),
             (''b.xml'', Document (Element (Some nfe) ''NFe'' None
                [Element (Some nfe) ''det'' None
                   [Element (Some nfe) ''prod'' None
                      [Element (Some nfe) ''cProd'' (Some ''P2'') []]]]))]) ''Venda''))"
  by (simp add: processar_Some Let_def)

section \<open>The sign of quantity and unit price\<close>

lemma set_strip_space: "set (strip_space s) \<subseteq> set s"
  by (auto simp: strip_space_def dest!: set_dropWhileD)

lemma set_drop_underscores: "drop_underscores prev t = Some u \<Longrightarrow> set u \<subseteq> set t"
proof (induction t arbitrary: prev u)
  case Nil
  then show ?case by (simp split: if_splits)
next
  case (Cons c cs)
  then show ?case by (fastforce split: if_splits)
qed

lemma split_sign_set:
  "split_sign u = (neg, body) \<Longrightarrow> set body \<subseteq> set u \<and> (neg \<longrightarrow> CHR ''-'' \<in> set u)"
  by (auto simp: split_sign_def split: list.splits if_splits)

lemma lower_char_n: "lower_char c = CHR ''n'' \<Longrightarrow> c = CHR ''n'' \<or> c = CHR ''N''"
  by (simp add: lower_char_def split: if_splits)

lemma lower_has_n:
  assumes "CHR ''n'' \<in> set (map lower_char body)"
  shows "CHR ''n'' \<in> set body \<or> CHR ''N'' \<in> set body"
proof -
  from assms obtain c where "c \<in> set body" and "lower_char c = CHR ''n''"
    by auto
  then show ?thesis
    using lower_char_n[of c] by auto
qed

lemma parse_decimal_nonneg: "parse_decimal body = Some r \<Longrightarrow> 0 \<le> r"
  using pow10_pos
  by (auto simp: parse_decimal_def Let_def less_imp_le split: if_splits prod.splits)

lemma round_double_nonneg:
  assumes "0 \<le> r"
  shows "fge (round_double r) (Finite 0)"
proof (cases "r = 0")
  case True
  then show ?thesis by (simp add: round_double_def fge_def flt_def)
next
  case False
  define e where "e = max (floor_log2 r - 52) (- 1074)"
  have "0 \<le> r / pow2 e"
    using assms pow2_pos[of e] by simp
  then have "0 \<le> round_half_even (r / pow2 e)"
    by (rule round_half_even_nonneg)
  then have "0 \<le> (of_int (round_half_even (r / pow2 e)) :: rat) * pow2 e"
    using pow2_pos[of e] by simp
  then show ?thesis
    using False assms
    by (simp add: round_double_def round_double_pos_def Let_def e_def fge_def flt_def)
qed

lemma py_float_nonneg:
  assumes "py_float s = Inr v" and "plain_number_text s"
  shows "fge v (Finite 0)"
proof -
  define t where "t = strip_space s"
  from assms(1) obtain u where u: "drop_underscores (CHR 0x00) t = Some u"
    by (auto simp: py_float_def Let_def t_def split: if_splits option.splits)
  obtain neg body where sb: "split_sign u = (neg, body)"
    by (cases "split_sign u")
  have sub: "set u \<subseteq> set s"
    using set_drop_underscores[OF u] set_strip_space[of s] by (auto simp: t_def)
  have notneg: "\<not> neg"
    using split_sign_set[OF sb] sub assms(2) by (auto simp: plain_number_text_def)
  have body: "CHR ''n'' \<notin> set body \<and> CHR ''N'' \<notin> set body"
    using split_sign_set[OF sb] sub assms(2) by (auto simp: plain_number_text_def)
  have nolit: "map lower_char body \<noteq> ''inf'' \<and> map lower_char body \<noteq> ''infinity'' \<and>
      map lower_char body \<noteq> ''nan''"
  proof -
    have "CHR ''n'' \<notin> set (map lower_char body)"
      using lower_has_n[of body] body by blast
    then show ?thesis by auto
  qed
  from assms(1) obtain r where r: "parse_decimal body = Some r" and v: "v = round_double r"
    using u sb notneg nolit
    by (auto simp: py_float_def Let_def t_def split: if_splits option.splits)
  show ?thesis
    unfolding v using parse_decimal_nonneg[OF r] by (rule round_double_nonneg)
qed

lemma float_value_nonneg:
  assumes "\<And>s. t = Some s \<Longrightarrow> plain_number_text s"
  shows "fge (float_value t) (Finite 0)"
proof (cases t)
  case None
  then show ?thesis by (simp add: float_value_def float_or_zero_def fge_def flt_def)
next
  case (Some s)
  show ?thesis
  proof (cases "py_float s")
    case (Inl e)
    then show ?thesis
      using Some py_float_error[OF Inl]
      by (simp add: float_value_def float_or_zero_def fge_def flt_def)
  next
    case (Inr v)
    then have "fge v (Finite 0)"
      using assms[OF Some] by (rule py_float_nonneg)
    then show ?thesis
      using Some Inr by (simp add: float_value_def float_or_zero_def fge_def flt_def)
  qed
qed

lemma first_match_Some:
  "first_match tg es = Some f \<Longrightarrow> f \<in> set es \<and> ens f = fst tg \<and> local_name f = snd tg"
proof -
  assume a: "first_match tg es = Some f"
  then obtain rest where "filter (tag_matches tg) es = f # rest"
    by (auto simp: first_match_def split: list.splits)
  then have "f \<in> set (filter (tag_matches tg) es)"
    by simp
  then show ?thesis
    by (simp add: tag_matches_def)
qed

lemma field_text_Some:
  assumes "field_text p n = Some s"
  shows "\<exists>f \<in> set (children p). local_name f = n \<and> etext f = Some s"
proof -
  from assms obtain tg where tg: "snd tg = n"
    and t: "text_of (first_match tg (children p)) = Some s"
    by (auto simp: field_text_def py_or_def split: if_splits)
  then obtain f where f: "first_match tg (children p) = Some f" and e: "etext f = Some s"
    by (auto simp: text_of_def split: option.splits)
  show ?thesis
    using first_match_Some[OF f] e tg by auto
qed

lemma prod_of_Some: "prod_of det = Some p \<Longrightarrow> p \<in> set (children det)"
  by (auto simp: prod_of_def split: option.splits dest: first_match_Some)

lemma children_descendants: "set (children e) \<subseteq> set (descendants e)"
  by (cases e) auto

lemma descendants_trans:
  "x \<in> set (descendants y) \<Longrightarrow> y \<in> set (descendants z) \<Longrightarrow> x \<in> set (descendants z)"
proof (induction z arbitrary: y)
  case (Element u n t cs)
  from Element.prems(2) obtain c where c: "c \<in> set cs" and y: "y = c \<or> y \<in> set (descendants c)"
    by auto
  from y have "x \<in> set (descendants c)"
  proof
    assume "y = c"
    then show ?thesis using Element.prems(1) by simp
  next
    assume "y \<in> set (descendants c)"
    then show ?thesis using Element.IH[OF c Element.prems(1)] by simp
  qed
  then show ?case using c by auto
qed

lemma dets_of_descendants: "set (dets_of root_el) \<subseteq> set (descendants root_el)"
  by (auto simp: dets_of_def)

lemma field_of_item_in_document:
  assumes "det \<in> set (dets_of root_el)" and "prod_of det = Some p"
    and "field_text p n = Some s"
  shows "\<exists>f \<in> set (descendants root_el). local_name f = n \<and> etext f = Some s"
proof -
  from field_text_Some[OF assms(3)] obtain f where f: "f \<in> set (children p)"
    and l: "local_name f = n" and e: "etext f = Some s"
    by blast
  have p: "p \<in> set (descendants det)"
    using prod_of_Some[OF assms(2)] children_descendants[of det] by blast
  have d: "det \<in> set (descendants root_el)"
    using assms(1) dets_of_descendants[of root_el] by blast
  have "f \<in> set (descendants p)"
    using f children_descendants[of p] by blast
  then have "f \<in> set (descendants root_el)"
    using descendants_trans p d by blast
  then show ?thesis
    using l e by blast
qed

text \<open>
  Claim C4, as the code has it. The quantity and the unit price of a record are the
  floats that \<open>float\<close> reads from the texts, whatever their sign. They are not
  below \<open>0.0\<close> when no \<open>qCom\<close> or \<open>vUnCom\<close> element of the document has a text
  with a minus sign or the letter \<open>n\<close>.
\<close>

theorem quantity_and_price_nonnegative:
  assumes "\<forall>f \<in> set (descendants root_el).
             local_name f = ''qCom'' \<or> local_name f = ''vUnCom'' \<longrightarrow>
             (\<forall>s. etext f = Some s \<longrightarrow> plain_number_text s)"
    and "parse_xml_base arquivo (Document root_el) tipo_doc = Inr itens"
    and "i \<in> set itens"
  shows "fge (quantidade i) (Finite 0) \<and> fge (valor_unitario i) (Finite 0)"
proof -
  from assms(2,3) obtain det where det: "det \<in> set (dets_of root_el)"
    and i: "item_of arquivo (dh_emi_of root_el) tipo_doc det = Some i"
    by (auto simp: parse_xml_base_Document in_map_filter)
  from i obtain p where p: "prod_of det = Some p"
    and q: "quantidade i = float_value (field_text p ''qCom'')"
    and v: "valor_unitario i = float_value (field_text p ''vUnCom'')"
    by (auto simp: item_of_def split: option.splits if_splits)
  have plain: "plain_number_text s"
    if "field_text p n = Some s" and "n = ''qCom'' \<or> n = ''vUnCom''" for n s
  proof -
    from field_of_item_in_document[OF det p that(1)] obtain f
      where "f \<in> set (descendants root_el)" and "local_name f = n" and "etext f = Some s"
      by blast
    then show ?thesis
      using assms(1) that(2) by blast
  qed
  have "fge (float_value (field_text p ''qCom'')) (Finite 0)"
  proof (rule float_value_nonneg)
    fix s
    assume "field_text p ''qCom'' = Some s"
    then show "plain_number_text s" by (rule plain) simp
  qed
  moreover have "fge (float_value (field_text p ''vUnCom'')) (Finite 0)"
  proof (rule float_value_nonneg)
    fix s
    assume "field_text p ''vUnCom'' = Some s"
    then show "plain_number_text s" by (rule plain) simp
  qed
  ultimately show ?thesis
    by (simp add: q v)
qed

text \<open>
  A witness: a document whose item has the quantity text \<open>3\<close> and the unit price
  text \<open>10\<close>.
\<close>

theorem quantity_and_price_nonnegative_witness:
  "map (\<lambda>i. (quantidade i, valor_unitario i))
     (items_of_file ''Venda'' (''a.xml'', Document (Element (Some nfe) ''NFe'' None
        [Element (Some nfe) ''det'' None
           [Element (Some nfe) ''prod'' None
              [Element (Some nfe) ''cProd'' (Some ''P1'') [],
               Element (Some nfe) ''qCom'' (Some ''3'') [],
               Element (Some nfe) ''vUnCom'' (Some ''10'') []]]])))
     = [(Finite 3, Finite 10)] \<and>
   fge (Finite 3) (Finite 0) \<and> fge (Finite 10) (Finite 0)"
proof -
  let ?root = "Element (Some nfe) ''NFe'' None
        [Element (Some nfe) ''det'' None
           [Element (Some nfe) ''prod'' None
              [Element (Some nfe) ''cProd'' (Some ''P1'') [],
               Element (Some nfe) ''qCom'' (Some ''3'') [],
               Element (Some nfe) ''vUnCom'' (Some ''10'') []]]]"
  have h: "\<forall>f \<in> set (descendants ?root).
             local_name f = ''qCom'' \<or> local_name f = ''vUnCom'' \<longrightarrow>
             (\<forall>s. etext f = Some s \<longrightarrow> plain_number_text s)"
    by (simp add: plain_number_text_def)
  obtain i where p: "parse_xml_base ''a.xml'' (Document ?root) ''Venda'' = Inr [i]"
    and q: "quantidade i = Finite 3" and v: "valor_unitario i = Finite 10"
    by (simp add: extractor_eval float_eval)
  have "fge (quantidade i) (Finite 0) \<and> fge (valor_unitario i) (Finite 0)"
    using quantity_and_price_nonnegative[OF h p] by simp
  then show ?thesis
    using p q v by (simp add: items_of_file_def)
qed

text \<open>
  The claim as the specification states it fails: the quantity text \<open>-5\<close> gives
  the quantity \<open>-5.0\<close>.
\<close>

theorem negative_quantity:
  "map quantidade
     (items_of_file ''Venda'' (''a.xml'', Document (Element (Some nfe) ''NFe'' None
        [Element (Some nfe) ''det'' None
           [Element (Some nfe) ''prod'' None
              [Element (Some nfe) ''cProd'' (Some ''P1'') [],
               Element (Some nfe) ''qCom'' (Some ''-5'') [],
               Element (Some nfe) ''vUnCom'' (Some ''2'') []]]])))
     = [Finite (- 5)] \<and>
   \<not> fge (Finite (- 5)) (Finite 0)"
  by (simp add: items_of_file_Document extractor_eval float_eval fge_def flt_def)

section \<open>Documents with and without the namespace\<close>

lemma strip_ns_sel [simp]:
  "ens (strip_ns e) = None"
  "local_name (strip_ns e) = local_name e"
  "etext (strip_ns e) = etext e"
  "children (strip_ns e) = map strip_ns (children e)"
  by (cases e; simp)+

lemma descendants_strip_ns: "descendants (strip_ns e) = map strip_ns (descendants e)"
proof (induction e)
  case (Element u n t cs)
  show ?case
    by (simp add: map_concat comp_def Element.IH cong: map_cong)
qed

lemma all_in_ns_sel:
  "all_in_ns uri e \<Longrightarrow> ens e = Some uri \<and> (\<forall>c \<in> set (children e). all_in_ns uri c)"
  by (cases e) simp

lemma all_in_ns_descendants:
  "all_in_ns uri e \<Longrightarrow> x \<in> set (descendants e) \<Longrightarrow> all_in_ns uri x"
proof (induction e)
  case (Element u n t cs)
  from Element.prems(2) obtain c where c: "c \<in> set cs" and x: "x = c \<or> x \<in> set (descendants c)"
    by auto
  have "all_in_ns uri c"
    using Element.prems(1) c by simp
  then show ?case
    using x Element.IH[OF c] by blast
qed

lemma no_empty_text_sel:
  "no_empty_text e \<Longrightarrow> etext e \<noteq> Some [] \<and> (\<forall>c \<in> set (children e). no_empty_text c)"
  by (cases e) simp

lemma no_empty_text_descendants:
  "no_empty_text e \<Longrightarrow> x \<in> set (descendants e) \<Longrightarrow> no_empty_text x"
proof (induction e)
  case (Element u n t cs)
  from Element.prems(2) obtain c where c: "c \<in> set cs" and x: "x = c \<or> x \<in> set (descendants c)"
    by auto
  have "no_empty_text c"
    using Element.prems(1) c by simp
  then show ?case
    using x Element.IH[OF c] by blast
qed

text \<open>
  Among elements that are all in the namespace, the qualified lookup selects by the
  local name and the unqualified lookup selects nothing; among the stripped
  elements it is the other way round.
\<close>

lemma filter_qualified:
  assumes "\<forall>x \<in> set xs. ens x = Some nfe"
  shows "filter (tag_matches (Some nfe, n)) xs = filter (\<lambda>x. local_name x = n) xs"
    and "filter (tag_matches (None, n)) xs = []"
  using assms by (induction xs) (simp_all add: tag_matches_def)

lemma filter_stripped:
  "filter (tag_matches (Some nfe, n)) (map strip_ns xs) = []"
  "filter (tag_matches (None, n)) (map strip_ns xs) =
     map strip_ns (filter (\<lambda>x. local_name x = n) xs)"
  by (induction xs) (simp_all add: tag_matches_def)

lemma first_match_stripped:
  assumes "\<forall>x \<in> set xs. ens x = Some nfe"
  shows "first_match (Some nfe, n) (map strip_ns xs) = None"
    and "first_match (None, n) xs = None"
    and "first_match (None, n) (map strip_ns xs) = map_option strip_ns (first_match (Some nfe, n) xs)"
  using filter_qualified[OF assms, of n]
  by (simp_all add: first_match_def filter_stripped split: list.splits)

lemma text_of_strip: "text_of (map_option strip_ns m) = text_of m"
  by (cases m) (simp_all add: text_of_def)

lemma field_text_strip:
  assumes "all_in_ns nfe p" and "no_empty_text p"
  shows "field_text (strip_ns p) n = field_text p n"
proof -
  have ch: "\<forall>x \<in> set (children p). ens x = Some nfe"
    using all_in_ns_sel[OF assms(1)] all_in_ns_sel by blast
  note fm = first_match_stripped[OF ch, of n]
  show ?thesis
  proof (cases "first_match (Some nfe, n) (children p)")
    case None
    then show ?thesis
      using fm by (simp add: field_text_def py_or_def text_of_def truthy_def)
  next
    case (Some f)
    then have "f \<in> set (children p)"
      using first_match_Some by blast
    then have "etext f \<noteq> Some []"
      using no_empty_text_sel[OF assms(2)] no_empty_text_sel by blast
    then show ?thesis
      using Some fm
      by (cases "etext f") (simp_all add: field_text_def py_or_def text_of_def truthy_def)
  qed
qed

lemma prod_of_strip:
  assumes "all_in_ns nfe det"
  shows "prod_of (strip_ns det) = map_option strip_ns (prod_of det)"
proof -
  have ch: "\<forall>x \<in> set (children det). ens x = Some nfe"
    using all_in_ns_sel[OF assms] all_in_ns_sel by blast
  show ?thesis
    using first_match_stripped[OF ch, of "''prod''"]
    by (simp add: prod_of_def split: option.splits)
qed

lemma item_of_strip:
  assumes "all_in_ns nfe det" and "no_empty_text det"
  shows "item_of arquivo dh_emi tipo_doc (strip_ns det) = item_of arquivo dh_emi tipo_doc det"
proof (cases "prod_of det")
  case None
  then show ?thesis
    by (simp add: item_of_def prod_of_strip[OF assms(1)])
next
  case (Some p)
  then have "p \<in> set (children det)"
    by (rule prod_of_Some)
  then have "all_in_ns nfe p" and "no_empty_text p"
    using all_in_ns_sel[OF assms(1)] no_empty_text_sel[OF assms(2)] by blast+
  then have "field_text (strip_ns p) n = field_text p n" for n
    by (rule field_text_strip)
  then show ?thesis
    using Some by (simp add: item_of_def prod_of_strip[OF assms(1)])
qed

lemma dets_of_strip:
  assumes "all_in_ns nfe root_el"
  shows "dets_of (strip_ns root_el) = map strip_ns (dets_of root_el)"
proof -
  have d: "\<forall>x \<in> set (descendants root_el). ens x = Some nfe"
    using all_in_ns_descendants[OF assms] all_in_ns_sel by blast
  show ?thesis
    using filter_qualified[OF d, of "''det''"]
    by (simp add: dets_of_def descendants_strip_ns filter_stripped)
qed

lemma dh_emi_of_strip:
  assumes "all_in_ns nfe root_el"
  shows "dh_emi_of (strip_ns root_el) = dh_emi_of root_el"
proof -
  have d: "\<forall>x \<in> set (descendants root_el). ens x = Some nfe"
    using all_in_ns_descendants[OF assms] all_in_ns_sel by blast
  note fm = first_match_stripped[OF d, of "''ide''"]
  show ?thesis
  proof (cases "first_match (Some nfe, ''ide'') (descendants root_el)")
    case None
    then show ?thesis
      using fm
      by (simp add: dh_emi_of_def canonical_timestamp_def unqualified_timestamp_def
          descendants_strip_ns)
  next
    case (Some ide)
    then have "ide \<in> set (descendants root_el)"
      using first_match_Some by blast
    then have "all_in_ns nfe ide"
      using all_in_ns_descendants[OF assms] by blast
    then have ch: "\<forall>x \<in> set (children ide). ens x = Some nfe"
      using all_in_ns_sel by blast
    show ?thesis
      using Some fm first_match_stripped[OF ch, of "''dhEmi''"]
      by (simp add: dh_emi_of_def canonical_timestamp_def unqualified_timestamp_def
          descendants_strip_ns text_of_strip)
  qed
qed

lemma map_filter_strip:
  assumes "\<forall>det \<in> set dets. all_in_ns nfe det \<and> no_empty_text det"
  shows "List.map_filter (item_of arquivo dh_emi tipo_doc) (map strip_ns dets) =
         List.map_filter (item_of arquivo dh_emi tipo_doc) dets"
  using assms
  by (induction dets) (simp_all add: List.map_filter_simps item_of_strip split: option.splits)

text \<open>
  Claim C3, as the code has it. For a document whose elements are all in the
  namespace of NF-e and none of whose elements has the empty string as its text, the
  extractor gives the same records for the document and for the document with every
  namespace stripped.
\<close>

theorem namespace_fallback_equivalence:
  assumes "all_in_ns nfe root_el" and "no_empty_text root_el"
  shows "parse_xml_base arquivo (Document (strip_ns root_el)) tipo_doc =
         parse_xml_base arquivo (Document root_el) tipo_doc"
proof -
  have "\<forall>det \<in> set (dets_of root_el). all_in_ns nfe det \<and> no_empty_text det"
    using dets_of_descendants[of root_el] all_in_ns_descendants[OF assms(1)]
      no_empty_text_descendants[OF assms(2)]
    by blast
  then show ?thesis
    by (simp add: parse_xml_base_Document dets_of_strip[OF assms(1)]
        dh_emi_of_strip[OF assms(1)] map_filter_strip)
qed

text \<open>A witness: a document of the namespace with a header and one item.\<close>

theorem namespace_fallback_equivalence_witness:
  "parse_xml_base ''a.xml''
     (Document (Element None ''NFe'' None
        [Element None ''ide'' None [Element None ''dhEmi'' (Some ''2024-01-02T10:00:00'') []],
         Element None ''det'' None
           [Element None ''prod'' None
              [Element None ''cProd'' (Some ''P1'') [],
               Element None ''xProd'' (Some ''Arroz'') [],
               Element None ''CFOP'' (Some ''5102'') []]]])) ''Venda'' =
   parse_xml_base ''a.xml''
     (Document (Element (Some nfe) ''NFe'' None
        [Element (Some nfe) ''ide'' None
           [Element (Some nfe) ''dhEmi'' (Some ''2024-01-02T10:00:00'') []],
         Element (Some nfe) ''det'' None
           [Element (Some nfe) ''prod'' None
              [Element (Some nfe) ''cProd'' (Some ''P1'') [],
               Element (Some nfe) ''xProd'' (Some ''Arroz'') [],
               Element (Some nfe) ''CFOP'' (Some ''5102'') []]]])) ''Venda''"
  using namespace_fallback_equivalence[of "Element (Some nfe) ''NFe'' None
        [Element (Some nfe) ''ide'' None
           [Element (Some nfe) ''dhEmi'' (Some ''2024-01-02T10:00:00'') []],
         Element (Some nfe) ''det'' None
           [Element (Some nfe) ''prod'' None
              [Element (Some nfe) ''cProd'' (Some ''P1'') [],
               Element (Some nfe) ''xProd'' (Some ''Arroz'') [],
               Element (Some nfe) ''CFOP'' (Some ''5102'') []]]]" "''a.xml''" "''Venda''"]
  by simp

text \<open>
  The claim as the specification states it fails on a document of the namespace
  whose \<open>cProd\<close> element has the empty string as its text: with the namespace the
  product code of the record is \<open>None\<close>, without it the product code is the empty
  string.
\<close>

theorem namespace_fallback_empty_text:
  "all_in_ns nfe (Element (Some nfe) ''NFe'' None
        [Element (Some nfe) ''det'' None
           [Element (Some nfe) ''prod'' None
              [Element (Some nfe) ''cProd'' (Some '''') [],
               Element (Some nfe) ''xProd'' (Some ''Arroz'') []]]]) \<and>
   map codigo_produto
     (items_of_file ''Venda'' (''a.xml'', Document (Element (Some nfe) ''NFe'' None
        [Element (Some nfe) ''det'' None
           [Element (Some nfe) ''prod'' None
              [Element (Some nfe) ''cProd'' (Some '''') [],
               Element (Some nfe) ''xProd'' (Some ''Arroz'') []]]]))) = [None] \<and>
   map codigo_produto
     (items_of_file ''Venda'' (''a.xml'', Document (strip_ns (Element (Some nfe) ''NFe'' None
        [Element (Some nfe) ''det'' None
           [Element (Some nfe) ''prod'' None
              [Element (Some nfe) ''cProd'' (Some '''') [],
               Element (Some nfe) ''xProd'' (Some ''Arroz'') []]]])))) = [Some '''']"
  by (simp add: items_of_file_Document extractor_eval)

section \<open>The product summary\<close>

text \<open>The definitions that evaluate the summary on a concrete frame.\<close>

lemmas summary_eval = criar_resumo_produto_def group_rows_def agg_first_def agg_cfop_def
  series_mode_def sort_values_desc_def sort_asc_def isnan_def flt_def plain_sum_def
  plain_mean_def fadd_def fmul_def row_of_def Let_def

subsection \<open>The order of the rows\<close>

lemma flt_asym: "flt x y \<Longrightarrow> \<not> flt y x"
  by (cases x; cases y) (simp_all add: flt_def)

lemma not_flt_trans:
  "y \<noteq> NaN \<Longrightarrow> \<not> flt y x \<Longrightarrow> \<not> flt z y \<Longrightarrow> \<not> flt z x"
  by (cases x; cases y; cases z) (simp_all add: flt_def)

lemma set_insert_asc: "set (insert_asc key x ys) = insert x (set ys)"
  by (induction ys) auto

lemma set_sort_asc: "set (sort_asc key xs) = set xs"
  by (induction xs) (simp_all add: sort_asc_def set_insert_asc)

lemma sorted_insert_asc:
  assumes "sorted_wrt (\<lambda>a b. \<not> flt (key b) (key a)) ys"
    and "\<forall>y \<in> set ys. key y \<noteq> NaN"
  shows "sorted_wrt (\<lambda>a b. \<not> flt (key b) (key a)) (insert_asc key x ys)"
  using assms
proof (induction ys)
  case Nil
  then show ?case by simp
next
  case (Cons y ys)
  show ?case
  proof (cases "flt (key y) (key x)")
    case True
    have "\<not> flt (key x) (key y)"
      using True by (rule flt_asym)
    then show ?thesis
      using True Cons by (simp add: set_insert_asc)
  next
    case False
    have "\<not> flt (key z) (key x)" if "z \<in> set ys" for z
    proof -
      have "\<not> flt (key z) (key y)"
        using Cons.prems(1) that by simp
      moreover have "key y \<noteq> NaN"
        using Cons.prems(2) by simp
      ultimately show ?thesis
        using False not_flt_trans by blast
    qed
    then show ?thesis
      using False Cons.prems(1) by simp
  qed
qed

lemma sorted_sort_asc:
  assumes "\<forall>x \<in> set xs. key x \<noteq> NaN"
  shows "sorted_wrt (\<lambda>a b. \<not> flt (key b) (key a)) (sort_asc key xs)"
  using assms
proof (induction xs)
  case Nil
  then show ?case by (simp add: sort_asc_def)
next
  case (Cons x xs)
  have s: "sorted_wrt (\<lambda>a b. \<not> flt (key b) (key a)) (sort_asc key xs)"
    using Cons by simp
  have n: "\<forall>y \<in> set (sort_asc key xs). key y \<noteq> NaN"
    using Cons.prems by (simp add: set_sort_asc)
  have "sort_asc key (x # xs) = insert_asc key x (sort_asc key xs)"
    by (simp add: sort_asc_def)
  then show ?case
    using sorted_insert_asc[OF s n] by simp
qed

lemma set_sort_values_desc: "set (sort_values_desc key rows) = set rows"
  by (auto simp: sort_values_desc_def set_sort_asc)

lemma sorted_sort_values_desc:
  "sorted_wrt (\<lambda>a b. \<not> flt (key a) (key b) \<and> (key b \<noteq> NaN \<longrightarrow> fge (key a) (key b)))
     (sort_values_desc key rows)"
proof -
  define good where "good = filter (\<lambda>r. \<not> isnan (key r)) rows"
  define bad where "bad = filter (\<lambda>r. isnan (key r)) rows"
  let ?R = "\<lambda>a b. \<not> flt (key a) (key b) \<and> (key b \<noteq> NaN \<longrightarrow> fge (key a) (key b))"
  have g: "\<forall>x \<in> set (rev good). key x \<noteq> NaN"
    by (simp add: good_def isnan_def)
  have b: "\<forall>x \<in> set bad. key x = NaN"
    by (simp add: bad_def isnan_def)
  have "sorted_wrt (\<lambda>a b. \<not> flt (key b) (key a)) (sort_asc key (rev good))"
    using g by (rule sorted_sort_asc)
  then have "sorted_wrt (\<lambda>a b. \<not> flt (key a) (key b)) (rev (sort_asc key (rev good)))"
    by (simp add: sorted_wrt_rev)
  moreover have "\<forall>x \<in> set (rev (sort_asc key (rev good))). key x \<noteq> NaN"
    using g by (simp add: set_sort_asc)
  ultimately have first: "sorted_wrt ?R (rev (sort_asc key (rev good)))"
    by (auto simp: fge_def elim!: sorted_wrt_mono_rel[rotated])
  have second: "sorted_wrt ?R bad"
    using b by (auto simp: sorted_wrt_iff_nth_less flt_def split: pyfloat.splits)
  have cross: "\<forall>x \<in> set (rev (sort_asc key (rev good))). \<forall>y \<in> set bad. ?R x y"
    using b by (auto simp: flt_def split: pyfloat.splits)
  show ?thesis
    unfolding sort_values_desc_def good_def[symmetric] bad_def[symmetric]
    using first second cross by (simp add: sorted_wrt_append)
qed

text \<open>
  Claim C7. Across the rows of the summary the total quantity never increases: no
  row has a total below the total of a later row, and a row's total is at least the
  total of every later row whose total is a number. A total that is NaN (the sum of
  a group with quantities \<open>inf\<close> and \<open>-inf\<close>) comes after all the numbers.
\<close>

theorem total_quantity_non_increasing:
  "sorted_wrt (\<lambda>x y. \<not> flt x y \<and> (y \<noteq> NaN \<longrightarrow> fge x y))
     (map qtd_total (criar_resumo_produto agg_sum agg_mean df))"
proof (cases "df = [] \<or> filter (\<lambda>r. codigo_produto r \<noteq> None) df = []")
  case True
  then show ?thesis
    by (auto simp: criar_resumo_produto_def Let_def)
next
  case False
  then show ?thesis
    using sorted_sort_values_desc[of qtd_total]
    by (simp add: criar_resumo_produto_def Let_def sorted_wrt_map)
qed

text \<open>
  A witness: the scenario of the specification, with product \<open>P2\<close> met first. The
  row of \<open>P1\<close> (total \<open>8\<close>) comes before the row of \<open>P2\<close> (total \<open>1\<close>).
\<close>

theorem total_quantity_non_increasing_witness:
  "map (\<lambda>r. (r_codigo_produto r, qtd_total r, valor_total r))
     (criar_resumo_produto plain_sum plain_mean
        [row_of ''P2'' (Some ''5102'') (Finite 1) (Finite 100),
         row_of ''P1'' (Some ''5102'') (Finite 3) (Finite 10),
         row_of ''P1'' (Some ''5102'') (Finite 5) (Finite 10)])
     = [(''P1'', Finite 8, Finite 80), (''P2'', Finite 1, Finite 100)] \<and>
   fge (Finite 8) (Finite 1)"
proof -
  let ?df = "[row_of ''P2'' (Some ''5102'') (Finite 1) (Finite 100),
         row_of ''P1'' (Some ''5102'') (Finite 3) (Finite 10),
         row_of ''P1'' (Some ''5102'') (Finite 5) (Finite 10)]"
  have e: "map (\<lambda>r. (r_codigo_produto r, qtd_total r, valor_total r))
     (criar_resumo_produto plain_sum plain_mean ?df)
     = [(''P1'', Finite 8, Finite 80), (''P2'', Finite 1, Finite 100)]"
    by (simp add: summary_eval)
  then have "map qtd_total (criar_resumo_produto plain_sum plain_mean ?df) = [Finite 8, Finite 1]"
    by (auto simp: map_eq_Cons_conv)
  then have "fge (Finite 8) (Finite 1)"
    using total_quantity_non_increasing[of plain_sum plain_mean ?df] by simp
  then show ?thesis
    using e by simp
qed

subsection \<open>The predominant category code\<close>

lemma fold_max_eq: "fold max xs (a::nat) = Max (insert a (set xs))"
  using Max.set_eq_fold[of a xs] by simp

lemma series_mode_spec:
  fixes x :: "string option list"
  defines "vals \<equiv> map the (filter (\<lambda>v. v \<noteq> None) x)"
  shows "(vals = [] \<longrightarrow> agg_cfop x = None) \<and>
         (vals \<noteq> [] \<longrightarrow>
            (\<exists>c \<in> set vals. agg_cfop x = Some c \<and>
               (\<forall>v \<in> set vals. count_list vals v \<le> count_list vals c \<and>
                  (count_list vals v = count_list vals c \<longrightarrow> c \<le> v))))"
proof (cases "vals = []")
  case True
  then show ?thesis
    by (simp add: agg_cfop_def series_mode_def vals_def)
next
  case False
  define top where "top = fold max (map (count_list vals) vals) 0"
  define modes where "modes = filter (\<lambda>v. count_list vals v = top) vals"
  have top_eq: "top = Max (insert 0 (count_list vals ` set vals))"
    by (simp add: top_def fold_max_eq)
  have le: "count_list vals v \<le> top" if "v \<in> set vals" for v
    using that by (simp add: top_eq)
  have "top \<in> insert 0 (count_list vals ` set vals)"
    unfolding top_eq by (rule Max_in) simp_all
  moreover have "top \<noteq> 0"
  proof -
    obtain v where v: "v \<in> set vals"
      using False by (cases vals) auto
    then have "0 < count_list vals v"
      by (metis count_list_0_iff gr0I)
    then show ?thesis
      using le[OF v] by simp
  qed
  ultimately obtain w where w: "w \<in> set vals" and cw: "count_list vals w = top"
    by auto
  then have "w \<in> set (sort (remdups modes))"
    by (simp add: modes_def)
  then have ne: "sort (remdups modes) \<noteq> []"
    by (cases "sort (remdups modes)") simp_all
  then obtain c rest where cr: "sort (remdups modes) = c # rest"
    by (cases "sort (remdups modes)") auto
  have cmem: "c \<in> set modes"
  proof -
    have "c \<in> set (sort (remdups modes))"
      by (simp add: cr)
    then show ?thesis by simp
  qed
  have least: "c \<le> v" if "v \<in> set modes" for v
  proof -
    have "sorted (c # rest)"
      using sorted_sort[of "remdups modes"] by (simp add: cr)
    moreover have "v \<in> set (c # rest)"
      using that cr[symmetric] by simp
    ultimately show ?thesis
      by auto
  qed
  have "series_mode x = sort (remdups modes)"
    unfolding series_mode_def Let_def modes_def top_def vals_def by (rule refl)
  then have agg: "agg_cfop x = Some c"
    using cr by (simp add: agg_cfop_def)
  have cv: "c \<in> set vals" and cc: "count_list vals c = top"
    using cmem by (simp_all add: modes_def)
  have "count_list vals v \<le> count_list vals c \<and>
        (count_list vals v = count_list vals c \<longrightarrow> c \<le> v)" if "v \<in> set vals" for v
    using that le[OF that] least[of v] by (simp add: cc modes_def)
  then show ?thesis
    using False agg cv by blast
qed

lemma group_rows_clean:
  "group_rows (filter (\<lambda>r. codigo_produto r \<noteq> None) df) k =
     filter (\<lambda>r. codigo_produto r = Some k) df"
  "group_rows (filter (\<lambda>r. \<exists>y. codigo_produto r = Some y) df) k =
     filter (\<lambda>r. codigo_produto r = Some k) df"
  by (induction df) (auto simp: group_rows_def)

lemma resumo_row_cfop:
  assumes "row \<in> set (criar_resumo_produto agg_sum agg_mean df)"
  shows "CFOP_predominante row =
         agg_cfop (map CFOP (filter (\<lambda>r. codigo_produto r = Some (r_codigo_produto row)) df))"
proof (cases "df = [] \<or> filter (\<lambda>r. codigo_produto r \<noteq> None) df = []")
  case True
  then show ?thesis
    using assms by (auto simp: criar_resumo_produto_def Let_def)
next
  case False
  then show ?thesis
    using assms
    by (auto simp: criar_resumo_produto_def Let_def set_sort_values_desc group_rows_clean)
qed

text \<open>
  Claim C1, as the code has it. In every row of the summary the predominant category
  code is null when no record of the product has a category code; otherwise it is a
  category code of the highest count among the records of the product, and among
  the codes of that count it is the least one in the order of strings, since
  \<open>Series.mode\<close> sorts its result.
\<close>

theorem dominant_category_code:
  "\<forall>row \<in> set (criar_resumo_produto agg_sum agg_mean df).
     (group_cfops df (r_codigo_produto row) = [] \<longrightarrow> CFOP_predominante row = None) \<and>
     (group_cfops df (r_codigo_produto row) \<noteq> [] \<longrightarrow>
        (\<exists>c \<in> set (group_cfops df (r_codigo_produto row)).
           CFOP_predominante row = Some c \<and>
           (\<forall>v \<in> set (group_cfops df (r_codigo_produto row)).
              count_list (group_cfops df (r_codigo_produto row)) v
                \<le> count_list (group_cfops df (r_codigo_produto row)) c \<and>
              (count_list (group_cfops df (r_codigo_produto row)) v
                 = count_list (group_cfops df (r_codigo_produto row)) c \<longrightarrow> c \<le> v))))"
proof
  fix row
  assume "row \<in> set (criar_resumo_produto agg_sum agg_mean df)"
  then have "CFOP_predominante row =
         agg_cfop (map CFOP (filter (\<lambda>r. codigo_produto r = Some (r_codigo_produto row)) df))"
    by (rule resumo_row_cfop)
  then show "(group_cfops df (r_codigo_produto row) = [] \<longrightarrow> CFOP_predominante row = None) \<and>
     (group_cfops df (r_codigo_produto row) \<noteq> [] \<longrightarrow>
        (\<exists>c \<in> set (group_cfops df (r_codigo_produto row)).
           CFOP_predominante row = Some c \<and>
           (\<forall>v \<in> set (group_cfops df (r_codigo_produto row)).
              count_list (group_cfops df (r_codigo_produto row)) v
                \<le> count_list (group_cfops df (r_codigo_produto row)) c \<and>
              (count_list (group_cfops df (r_codigo_produto row)) v
                 = count_list (group_cfops df (r_codigo_produto row)) c \<longrightarrow> c \<le> v))))"
    using series_mode_spec[of "map CFOP (filter (\<lambda>r. codigo_produto r = Some (r_codigo_produto row)) df)"]
    by (simp add: group_cfops_def)
qed

text \<open>
  A witness: a product with the category codes \<open>5102\<close>, \<open>5405\<close> and \<open>5102\<close> has
  the predominant code \<open>5102\<close>, which occurs twice.
\<close>

theorem dominant_category_code_witness:
  "map (\<lambda>r. (r_codigo_produto r, CFOP_predominante r))
     (criar_resumo_produto plain_sum plain_mean
        [row_of ''P1'' (Some ''5102'') (Finite 3) (Finite 10),
         row_of ''P1'' (Some ''5405'') (Finite 1) (Finite 10),
         row_of ''P1'' (Some ''5102'') (Finite 5) (Finite 10)])
     = [(''P1'', Some ''5102'')] \<and>
   group_cfops
        [row_of ''P1'' (Some ''5102'') (Finite 3) (Finite 10),
         row_of ''P1'' (Some ''5405'') (Finite 1) (Finite 10),
         row_of ''P1'' (Some ''5102'') (Finite 5) (Finite 10)] ''P1''
     = [''5102'', ''5405'', ''5102'']"
proof -
  let ?df = "[row_of ''P1'' (Some ''5102'') (Finite 3) (Finite 10),
         row_of ''P1'' (Some ''5405'') (Finite 1) (Finite 10),
         row_of ''P1'' (Some ''5102'') (Finite 5) (Finite 10)]"
  obtain row where r: "criar_resumo_produto plain_sum plain_mean ?df = [row]"
    and k: "r_codigo_produto row = ''P1''"
    by (simp add: summary_eval)
  have g: "group_cfops ?df ''P1'' = [''5102'', ''5405'', ''5102'']"
    by (simp add: group_cfops_def row_of_def)
  have "\<exists>c \<in> set [''5102'', ''5405'', ''5102''].
           CFOP_predominante row = Some c \<and>
           (\<forall>v \<in> set [''5102'', ''5405'', ''5102''].
              count_list [''5102'', ''5405'', ''5102''] v
                \<le> count_list [''5102'', ''5405'', ''5102''] c)"
    using dominant_category_code[of plain_sum plain_mean ?df] r k g by simp
  then have "CFOP_predominante row = Some ''5102''"
    by auto
  then show ?thesis
    using r k g by simp
qed

text \<open>
  The claim as the specification states it fails on a tie: a product whose records
  have the category codes \<open>5405\<close> and then \<open>5102\<close>, once each, gets \<open>5102\<close>, the
  least of the two, and not \<open>5405\<close>, the one met first.
\<close>

theorem dominant_category_code_tie:
  "map CFOP_predominante
     (criar_resumo_produto plain_sum plain_mean
        [row_of ''P1'' (Some ''5405'') (Finite 3) (Finite 10),
         row_of ''P1'' (Some ''5102'') (Finite 5) (Finite 10)])
     = [Some ''5102''] \<and>
   group_cfops
        [row_of ''P1'' (Some ''5405'') (Finite 3) (Finite 10),
         row_of ''P1'' (Some ''5102'') (Finite 5) (Finite 10)] ''P1''
     = [''5405'', ''5102''] \<and>
   first_encountered_mode [''5405'', ''5102''] = Some ''5405''"
  by (simp add: summary_eval group_cfops_def first_encountered_mode_def)

end
